theory Spec2Isabelle
  imports Main "HOL-Library.Sublist"
begin

section \<open>Python string operations used by the scripts\<close>

text \<open>
  A Python \<open>str\<close> is modelled as a list of characters. The operations that do not
  look at particular characters (\<open>find\<close>, slicing, \<open>replace\<close>, \<open>join\<close>) are
  polymorphic in the character type. Where the scripts name particular characters
  the 8-bit type \<^typ>\<open>char\<close> stands for the code points 0 to 255.
\<close>

abbreviation LF :: char where "LF \<equiv> CHR 0x0A"
abbreviation CR :: char where "CR \<equiv> CHR 0x0D"
abbreviation dquote :: char where "dquote \<equiv> CHR 0x22"
abbreviation squote :: char where "squote \<equiv> CHR 0x27"
abbreviation backslash :: char where "backslash \<equiv> CHR 0x5C"

text \<open>\<open>find_first sub s\<close>: the least index at which \<open>sub\<close> occurs in \<open>s\<close>.\<close>

fun find_first :: "'a list \<Rightarrow> 'a list \<Rightarrow> nat option" where
  "find_first sub [] = (if sub = [] then Some 0 else None)"
| "find_first sub (c # cs) =
     (if prefix sub (c # cs) then Some 0 else map_option Suc (find_first sub cs))"

text \<open>\<open>s.find(sub, start)\<close>: the least index \<open>\<ge> start\<close> of an occurrence, or \<open>-1\<close>.\<close>

definition py_find :: "'a list \<Rightarrow> 'a list \<Rightarrow> nat \<Rightarrow> int" where
  "py_find s sub start =
     (if length s < start then - 1
      else case find_first sub (drop start s) of
             None \<Rightarrow> - 1
           | Some i \<Rightarrow> int (start + i))"

text \<open>\<open>s.replace(old, new)\<close>: every non-overlapping occurrence, leftmost first.\<close>

fun py_replace :: "'a list \<Rightarrow> 'a list \<Rightarrow> 'a list \<Rightarrow> 'a list" where
  "py_replace old new [] = (if old = [] then new else [])"
| "py_replace old new (c # cs) =
     (if old = [] then new @ concat (map (\<lambda>x. x # new) (c # cs))
      else if prefix old (c # cs) then new @ py_replace old new (drop (length old - 1) cs)
      else c # py_replace old new cs)"

text \<open>\<open>sep.join(xs)\<close>.\<close>

fun join :: "'a list \<Rightarrow> 'a list list \<Rightarrow> 'a list" where
  "join sep [] = []"
| "join sep [x] = x"
| "join sep (x # y # ys) = x @ sep @ join sep (y # ys)"

text \<open>\<open>s.split(c)\<close> for a one-character separator: never the empty list.\<close>

fun split_on :: "'a \<Rightarrow> 'a list \<Rightarrow> 'a list list" where
  "split_on sep [] = [[]]"
| "split_on sep (c # cs) =
     (if c = sep then [] # split_on sep cs
      else case split_on sep cs of
             [] \<Rightarrow> [[c]]
           | w # ws \<Rightarrow> (c # w) # ws)"

text \<open>
  \<open>str.isspace\<close> on one character, as \<open>strip()\<close> and \<open>split()\<close> use it: the code
  points 9 to 13, 28 to 32, 133 and 160.
\<close>

definition isspace :: "char \<Rightarrow> bool" where
  "isspace c = (let n = (of_char c :: nat) in
     (9 \<le> n \<and> n \<le> 13) \<or> (28 \<le> n \<and> n \<le> 32) \<or> n = 133 \<or> n = 160)"

definition strip :: "string \<Rightarrow> string" where
  "strip s = rev (dropWhile isspace (rev (dropWhile isspace s)))"

text \<open>\<open>s.split()\<close>: the maximal runs of non-whitespace characters.\<close>

function split_ws :: "string \<Rightarrow> string list" where
  "split_ws s =
     (case dropWhile isspace s of
        [] \<Rightarrow> []
      | c # cs \<Rightarrow> (c # takeWhile (\<lambda>x. \<not> isspace x) cs)
                  # split_ws (dropWhile (\<lambda>x. \<not> isspace x) cs))"
  by pat_completeness auto
termination
proof (relation "measure length")
  show "wf (measure length)" by simp
next
  fix s :: string and c cs
  assume h: "dropWhile isspace s = c # cs"
  have "length (dropWhile (\<lambda>x. \<not> isspace x) cs) \<le> length cs"
    by (rule length_dropWhile_le)
  moreover have "length (c # cs) \<le> length s"
    using length_dropWhile_le [of isspace s] h by simp
  ultimately show "(dropWhile (\<lambda>x. \<not> isspace x) cs, s) \<in> measure length"
    by simp
qed

declare split_ws.simps [simp del]

section \<open>apply\_harvested\_docs.py: replacing a marked section\<close>

text \<open>
  The two warnings that \<open>replace_section\<close> prints; each carries the first fifty
  characters of the marker, as the message does.
\<close>

datatype diagnostic = MissingStartMarker string | MissingEndMarker string

definition replace_section ::
  "string \<Rightarrow> string \<Rightarrow> string \<Rightarrow> string \<Rightarrow> string \<times> diagnostic list" where
  "replace_section content start_marker end_marker new_content =
     (let start_idx = py_find content start_marker 0 in
      if start_idx = - 1 then (content, [MissingStartMarker (take 50 start_marker)])
      else
        let end_idx = py_find content end_marker (nat start_idx + length start_marker) in
        if end_idx = - 1 then (content, [MissingEndMarker (take 50 end_marker)])
        else (take (nat start_idx) content @ new_content @ drop (nat end_idx) content, []))"

section \<open>harvest\_python\_docs.py\<close>

subsection \<open>clean\_docstring\<close>

text \<open>
  The \<open>for\<close> loop that gathers the first paragraph. \<open>result_lines\<close> is the list
  the loop appends to; each \<open>break\<close> returns it.
\<close>

fun accumulate :: "string list \<Rightarrow> string list \<Rightarrow> string list" where
  "accumulate [] result_lines = result_lines"
| "accumulate (line # rest) result_lines =
     (let stripped = strip line in
      if stripped = [] \<and> result_lines \<noteq> [] then result_lines
      else
        let result_lines' = (if stripped \<noteq> [] then result_lines @ [stripped]
                             else result_lines) in
        if 300 < length (join '' '' result_lines') then result_lines'
        else accumulate rest result_lines')"

text \<open>
  The lines of the stripped text, without the empty lines at the start (the
  \<open>while\<close> loop that pops them), run through the loop above.
\<close>

definition result_lines_of :: "string \<Rightarrow> string list" where
  "result_lines_of doc =
     accumulate (dropWhile (\<lambda>l. strip l = []) (split_on LF (strip doc))) []"

text \<open>The four \<open>replace\<close> calls, in the order of the source.\<close>

definition escape_text :: "string \<Rightarrow> string" where
  "escape_text t =
     py_replace [CR] '' ''
       (py_replace [LF] '' ''
         (py_replace [dquote] [backslash, dquote]
           (py_replace [backslash] [backslash, backslash] t)))"

text \<open>\<open>doc\<close> is \<open>Optional[str]\<close>: \<open>None\<close> and the empty string are both falsy.\<close>

definition clean_docstring :: "string option \<Rightarrow> string" where
  "clean_docstring doc =
     (case doc of
        None \<Rightarrow> []
      | Some d \<Rightarrow>
          if d = [] then []
          else join '' '' (split_ws (escape_text (join '' '' (result_lines_of d)))))"

subsection \<open>get\_function\_signature\<close>

text \<open>
  What the function reads of a callable. \<open>inspect.signature\<close> gives the parameters in
  order, or raises; \<open>func.__name__\<close> gives the name, or raises \<open>AttributeError\<close> when
  the callable has none (\<open>fn_name = None\<close>).

  Of a parameter the loop reads the name, the kind and the default. The default is the
  marker \<open>Parameter.empty\<close> (\<open>param_default = None\<close>) or an object. Of that object the
  loop takes the truth value of \<open>param.default != inspect.Parameter.empty\<close>, a comparison
  the object itself defines, so it can be false for a real default and it can raise; then
  whether the object is a string, is Python's \<open>None\<close>, or is something else, of which
  the string form \<open>str(default)\<close> is used, which can raise as well.
\<close>

datatype exn = ValueError | TypeError | AttributeError | OtherException

datatype default_value = DefaultStr string | DefaultNone | DefaultOther "exn + string"

record default_object =
  default_value :: default_value
  differs_from_empty :: "exn + bool"

datatype param_kind =
  POSITIONAL_ONLY | POSITIONAL_OR_KEYWORD | VAR_POSITIONAL | KEYWORD_ONLY | VAR_KEYWORD

record parameter =
  param_name :: string
  param_default :: "default_object option"
  param_kind :: param_kind

record callable =
  fn_name :: "string option"
  fn_doc :: "string option"
  fn_signature :: "exn + parameter list"

text \<open>The \<open>elif\<close> branches: the text of a parameter taken to have no default.\<close>

definition plain_param :: "parameter \<Rightarrow> string" where
  "plain_param p =
     (if param_kind p = VAR_POSITIONAL then ''*'' @ param_name p
      else if param_kind p = VAR_KEYWORD then ''**'' @ param_name p
      else param_name p)"

text \<open>
  The body of the loop after the \<open>self\<close> test: the text of one parameter, or the
  exception that the comparison or \<open>str\<close> raises. The marker compared with itself is
  not different.
\<close>

definition param_str :: "parameter \<Rightarrow> exn + string" where
  "param_str p =
     (case param_default p of
        None \<Rightarrow> Inr (plain_param p)
      | Some d \<Rightarrow>
          (case differs_from_empty d of
             Inl e \<Rightarrow> Inl e
           | Inr differs \<Rightarrow>
               if differs then
                 (case default_value d of
                    DefaultStr v \<Rightarrow> Inr (param_name p @ ''='' @ [squote] @ v @ [squote])
                  | DefaultNone \<Rightarrow> Inr (param_name p @ ''=None'')
                  | DefaultOther (Inr v) \<Rightarrow> Inr (param_name p @ ''='' @ v)
                  | DefaultOther (Inl e) \<Rightarrow> Inl e)
               else Inr (plain_param p)))"

fun signature_params :: "parameter list \<Rightarrow> string list \<Rightarrow> exn + string list" where
  "signature_params [] params = Inr params"
| "signature_params (p # ps) params =
     (if param_name p = ''self'' then signature_params ps params
      else case param_str p of
             Inl e \<Rightarrow> Inl e
           | Inr text \<Rightarrow> signature_params ps (params @ [text]))"

text \<open>
  The \<open>try\<close> block, up to its \<open>return func.__name__, params\<close>.
\<close>

definition try_signature :: "callable \<Rightarrow> exn + string \<times> string list" where
  "try_signature func =
     (case fn_signature func of
        Inl e \<Rightarrow> Inl e
      | Inr sig \<Rightarrow>
          (case signature_params sig [] of
             Inl e \<Rightarrow> Inl e
           | Inr params \<Rightarrow>
               (case fn_name func of
                  None \<Rightarrow> Inl AttributeError
                | Some name \<Rightarrow> Inr (name, params))))"

text \<open>
  \<open>ValueError\<close> and \<open>TypeError\<close> from the block are caught, and the handler reads
  \<open>func.__name__\<close> again; any other exception leaves the function.
\<close>

definition get_function_signature :: "callable \<Rightarrow> exn + string \<times> string list" where
  "get_function_signature func =
     (case try_signature func of
        Inr r \<Rightarrow> Inr r
      | Inl e \<Rightarrow>
          if e = ValueError \<or> e = TypeError then
            (case fn_name func of
               None \<Rightarrow> Inl AttributeError
             | Some name \<Rightarrow> Inr (name, []))
          else Inl e)"

subsection \<open>The harvested items\<close>

text \<open>
  An item of the interchange record is a JSON object; the scripts read the keys
  \<open>name\<close>, \<open>params\<close>, \<open>doc\<close>, \<open>type\<close> and \<open>value\<close>, and a key may be absent
  (\<open>None\<close>).
\<close>

record item =
  item_name :: "string option"
  item_params :: "string list option"
  item_doc :: "string option"
  item_type :: "string option"
  item_value :: "string option"

text \<open>
  The body of the loop of \<open>harvest_builtin_functions\<close> for one resolved name: the
  bare \<open>except\<close> around \<open>get_function_signature\<close> turns every exception into the
  looked-up name and no parameters.
\<close>

definition harvest_builtin_item :: "string \<Rightarrow> callable \<Rightarrow> item" where
  "harvest_builtin_item name func =
     (let doc = clean_docstring (fn_doc func);
          (func_name, params) =
            (case get_function_signature func of
               Inr r \<Rightarrow> r
             | Inl e \<Rightarrow> (name, []))
      in \<lparr>item_name = Some func_name, item_params = Some params, item_doc = Some doc,
          item_type = None, item_value = None\<rparr>)"

section \<open>generate\_swift\_completions.py\<close>

datatype error = KeyError string | IndexError

definition quoted :: "string \<Rightarrow> string" where
  "quoted p = [dquote] @ p @ [dquote]"

definition format_swift_array_item :: "item \<Rightarrow> bool \<Rightarrow> error + string" where
  "format_swift_array_item item is_constant =
     (if is_constant then
        (case item_name item of
           None \<Rightarrow> Inl (KeyError ''name'')
         | Some name \<Rightarrow>
             let value = (case item_value item of None \<Rightarrow> [] | Some v \<Rightarrow> v) in
             (case item_doc item of
                None \<Rightarrow> Inl (KeyError ''doc'')
              | Some doc \<Rightarrow>
                  Inr (''.constant(name: '' @ quoted name @ '', value: '' @ quoted value
                       @ '', documentation: '' @ quoted doc @ '')'')))
      else
        (case item_name item of
           None \<Rightarrow> Inl (KeyError ''name'')
         | Some name \<Rightarrow>
             let params = (case item_params item of None \<Rightarrow> [] | Some ps \<Rightarrow> ps) in
             (case item_doc item of
                None \<Rightarrow> Inl (KeyError ''doc'')
              | Some doc \<Rightarrow>
                  let params_str = join '', '' (map quoted params) in
                  Inr (''.function(name: '' @ quoted name @ '', parameters: ['' @ params_str
                       @ ''], documentation: '' @ quoted doc @ '')''))))"

text \<open>
  The loop \<open>for item in ...: lines.append(indent + format_swift_array_item(item, ...) + ",")\<close>,
  which the three generators of this script run with their own indentation; a
  \<open>KeyError\<close> ends it.
\<close>

fun append_items :: "string \<Rightarrow> bool \<Rightarrow> item list \<Rightarrow> string list \<Rightarrow> error + string list" where
  "append_items indent is_constant [] lines = Inr lines"
| "append_items indent is_constant (item # rest) lines =
     (case format_swift_array_item item is_constant of
        Inl e \<Rightarrow> Inl e
      | Inr text \<Rightarrow> append_items indent is_constant rest (lines @ [indent @ text @ '','']))"

definition generate_builtin_functions :: "item list \<Rightarrow> error + string" where
  "generate_builtin_functions data =
     (case append_items ''        '' False data
             [''    private static let builtinFunctions: [CompletionItem] = [''] of
        Inl e \<Rightarrow> Inl e
      | Inr lines \<Rightarrow> Inr (join [LF] (lines @ [''    ]''])))"

text \<open>
  \<open>str.capitalize\<close>: the first character in title case, the others in lower case.
  Within the code points 0 to 255 lower case moves A to Z and the letters 0xC0 to 0xDE
  (but 0xD7) up by 32; title case moves a to z and the letters 0xE0 to 0xFE (but 0xF7)
  down by 32 and turns 0xDF into \<open>Ss\<close>. The title case of 0xB5 and of 0xFF lies
  beyond code point 255; the model leaves these two characters as they are, so a name
  that starts with one of them is outside the model.
\<close>

definition to_lower :: "char \<Rightarrow> char" where
  "to_lower c = (let n = (of_char c :: nat) in
     if (65 \<le> n \<and> n \<le> 90) \<or> (192 \<le> n \<and> n \<le> 222 \<and> n \<noteq> 215) then char_of (n + 32)
     else c)"

definition to_title :: "char \<Rightarrow> string" where
  "to_title c = (let n = (of_char c :: nat) in
     if (97 \<le> n \<and> n \<le> 122) \<or> (224 \<le> n \<and> n \<le> 254 \<and> n \<noteq> 247) then [char_of (n - 32)]
     else if n = 223 then ''Ss''
     else [c])"

definition capitalize :: "string \<Rightarrow> string" where
  "capitalize s = (case s of [] \<Rightarrow> [] | c # cs \<Rightarrow> to_title c @ map to_lower cs)"

definition type_map :: "string \<rightharpoonup> string" where
  "type_map = [''str'' \<mapsto> ''StringMethods'', ''list'' \<mapsto> ''ListMethods'',
               ''dict'' \<mapsto> ''DictMethods'', ''set'' \<mapsto> ''SetMethods'',
               ''frozenset'' \<mapsto> ''FrozensetMethods'', ''bytes'' \<mapsto> ''BytesMethods'',
               ''bytearray'' \<mapsto> ''BytearrayMethods'', ''tuple'' \<mapsto> ''TupleMethods'']"

definition generate_type_methods :: "string \<Rightarrow> item list \<Rightarrow> error + string" where
  "generate_type_methods type_name methods =
     (let struct_name = (case type_map type_name of
                           Some n \<Rightarrow> n
                         | None \<Rightarrow> capitalize type_name @ ''Methods'') in
      case append_items ''            '' False methods
             [''    /// '' @ capitalize type_name
                @ '' type methods - for use when type inference determines an object is a ''
                @ type_name,
              ''    struct '' @ struct_name @ '' {'',
              ''        static let methods: [CompletionItem] = [''] of
        Inl e \<Rightarrow> Inl e
      | Inr lines \<Rightarrow> Inr (join [LF] (lines @ [''        ]'', ''    }''])))"

definition generate_math_module :: "item list \<Rightarrow> error + string" where
  "generate_math_module data =
     (let lines = [''    private static let mathModuleCompletions: [CompletionItem] = [''];
          constants = filter (\<lambda>item. item_type item = Some ''constant'') data;
          functions = filter (\<lambda>item. item_type item = Some ''function'') data;
          lines = (if constants \<noteq> [] then lines @ [''        // Math module constants'']
                   else lines)
      in case append_items ''        '' True constants lines of
           Inl e \<Rightarrow> Inl e
         | Inr lines \<Rightarrow>
             let lines = (if functions \<noteq> [] \<and> constants \<noteq> []
                          then lines @ [[], ''        // Math module functions'']
                          else lines)
             in case append_items ''        '' False functions lines of
                  Inl e \<Rightarrow> Inl e
                | Inr lines \<Rightarrow> Inr (join [LF] (lines @ [''    ]''])))"

text \<open>The interchange record read from \<open>python_docs.json\<close>.\<close>

record harvest =
  python_version :: string
  builtin_functions :: "item list"
  type_methods :: "string \<rightharpoonup> item list"
  math_module :: "item list"

definition type_order :: "string list" where
  "type_order = [''str'', ''list'', ''dict'', ''set'', ''frozenset'', ''bytes'',
                 ''bytearray'', ''tuple'']"

text \<open>The loop over \<open>type_order\<close> in \<open>main\<close>; \<open>swift_code\<close> is the list it appends to.\<close>

fun type_sections :: "(string \<rightharpoonup> item list) \<Rightarrow> string list \<Rightarrow> string list \<Rightarrow> error + string list" where
  "type_sections tm [] swift_code = Inr swift_code"
| "type_sections tm (type_name # rest) swift_code =
     (case tm type_name of
        None \<Rightarrow> type_sections tm rest swift_code
      | Some methods \<Rightarrow>
          (case generate_type_methods type_name methods of
             Inl e \<Rightarrow> Inl e
           | Inr block \<Rightarrow>
               type_sections tm rest
                 (swift_code @ [''    // MARK: - '' @ capitalize type_name @ '' Methods'',
                                block, []])))"

text \<open>
  \<open>main\<close>, as the text it writes to the output file. \<open>now\<close> is the time stamp of the
  run; the first \<open>print\<close> takes the first word of the version and fails on a
  version without one.
\<close>

definition main_generate :: "string \<Rightarrow> harvest \<Rightarrow> error + string" where
  "main_generate now data =
     (case split_ws (python_version data) of
        [] \<Rightarrow> Inl IndexError
      | v # vs \<Rightarrow>
          let swift_code =
                [''// MARK: - Generated Python Completions'',
                 ''// Generated from Python 3.13 documentation using inspect.getdoc()'',
                 ''// Generated on: '' @ now,
                 [],
                 ''    // MARK: - Built-in Functions'']
          in case generate_builtin_functions (builtin_functions data) of
               Inl e \<Rightarrow> Inl e
             | Inr builtins \<Rightarrow>
                 (case type_sections (type_methods data) type_order
                         (swift_code @ [builtins, []]) of
                    Inl e \<Rightarrow> Inl e
                  | Inr swift_code \<Rightarrow>
                      (case generate_math_module (math_module data) of
                         Inl e \<Rightarrow> Inl e
                       | Inr math \<Rightarrow>
                           Inr (join [LF]
                                  (swift_code @ [''    // MARK: - Math Module'', math, []])))))"

section \<open>apply\_harvested\_docs.py: the generators and main\<close>

text \<open>
  The generators of this script build each line in place; \<open>doc\<close> is read before
  \<open>name\<close>. For an item named \<open>print\<close> the joined parameter text goes through two
  \<open>replace\<close> calls.
\<close>

definition fix_print :: "string \<Rightarrow> string" where
  "fix_print params_str =
     py_replace [squote, dquote] [squote, backslash, CHR ''n'', dquote]
       (py_replace (''end='' @ [squote]) (''end='' @ [squote, backslash, backslash, CHR ''n''])
          params_str)"

definition function_line :: "string \<Rightarrow> string \<Rightarrow> string \<Rightarrow> string \<Rightarrow> string" where
  "function_line indent name params_str doc =
     indent @ ''.function(name: '' @ quoted name @ '', parameters: ['' @ params_str
       @ ''], documentation: '' @ quoted doc @ '')''"

fun builtin_lines_apply :: "item list \<Rightarrow> string list \<Rightarrow> error + string list" where
  "builtin_lines_apply [] lines = Inr lines"
| "builtin_lines_apply (item # rest) lines =
     (let params = (case item_params item of None \<Rightarrow> [] | Some ps \<Rightarrow> ps) in
      case item_doc item of
        None \<Rightarrow> Inl (KeyError ''doc'')
      | Some doc \<Rightarrow>
          let params_str = join '', '' (map quoted params) in
          (case item_name item of
             None \<Rightarrow> Inl (KeyError ''name'')
           | Some name \<Rightarrow>
               let params_str = (if name = ''print'' then fix_print params_str
                                 else params_str);
                   line = function_line ''        '' name params_str doc
               in builtin_lines_apply rest (lines @ [line @ '',''])))"

definition generate_builtin_functions_apply :: "item list \<Rightarrow> error + string" where
  "generate_builtin_functions_apply data =
     (case builtin_lines_apply data
             [''    private static let builtinFunctions: [CompletionItem] = [''] of
        Inl e \<Rightarrow> Inl e
      | Inr lines \<Rightarrow> Inr (join [LF] (lines @ [''    ]''])))"

fun method_lines_apply :: "string \<Rightarrow> item list \<Rightarrow> string list \<Rightarrow> error + string list" where
  "method_lines_apply indent [] lines = Inr lines"
| "method_lines_apply indent (item # rest) lines =
     (let params = (case item_params item of None \<Rightarrow> [] | Some ps \<Rightarrow> ps) in
      case item_doc item of
        None \<Rightarrow> Inl (KeyError ''doc'')
      | Some doc \<Rightarrow>
          let params_str = join '', '' (map quoted params) in
          (case item_name item of
             None \<Rightarrow> Inl (KeyError ''name'')
           | Some name \<Rightarrow>
               method_lines_apply indent rest
                 (lines @ [function_line indent name params_str doc @ '',''])))"

definition type_map_apply :: "string \<rightharpoonup> string \<times> string" where
  "type_map_apply =
     [''str'' \<mapsto> (''StringMethods'', ''string''), ''list'' \<mapsto> (''ListMethods'', ''list''),
      ''dict'' \<mapsto> (''DictMethods'', ''dict''), ''set'' \<mapsto> (''SetMethods'', ''set''),
      ''frozenset'' \<mapsto> (''FrozensetMethods'', ''frozenset''),
      ''bytes'' \<mapsto> (''BytesMethods'', ''bytes''),
      ''bytearray'' \<mapsto> (''BytearrayMethods'', ''bytearray''),
      ''tuple'' \<mapsto> (''TupleMethods'', ''tuple'')]"

definition generate_type_methods_struct :: "string \<Rightarrow> item list \<Rightarrow> error + string" where
  "generate_type_methods_struct type_name methods =
     (let (struct_name, type_desc) =
            (case type_map_apply type_name of
               Some r \<Rightarrow> r
             | None \<Rightarrow> (capitalize type_name @ ''Methods'', type_name)) in
      case method_lines_apply ''            '' methods
             [''    /// '' @ capitalize type_name
                @ '' type methods - for use when type inference determines an object is a ''
                @ type_desc,
              ''    struct '' @ struct_name @ '' {'',
              ''        static let methods: [CompletionItem] = [''] of
        Inl e \<Rightarrow> Inl e
      | Inr lines \<Rightarrow> Inr (join [LF] (lines @ [''        ]'', ''    }''])))"

fun constant_lines_apply :: "item list \<Rightarrow> string list \<Rightarrow> error + string list" where
  "constant_lines_apply [] lines = Inr lines"
| "constant_lines_apply (item # rest) lines =
     (case item_name item of
        None \<Rightarrow> Inl (KeyError ''name'')
      | Some name \<Rightarrow>
          let value = (case item_value item of None \<Rightarrow> [] | Some v \<Rightarrow> v) in
          (case item_doc item of
             None \<Rightarrow> Inl (KeyError ''doc'')
           | Some doc \<Rightarrow>
               constant_lines_apply rest
                 (lines @ [''        .constant(name: '' @ quoted name @ '', value: ''
                           @ quoted value @ '', documentation: '' @ quoted doc @ '')''
                           @ '',''])))"

definition generate_math_module_apply :: "item list \<Rightarrow> error + string" where
  "generate_math_module_apply data =
     (let lines = [''    private static let mathModuleCompletions: [CompletionItem] = [''];
          constants = filter (\<lambda>item. item_type item = Some ''constant'') data;
          functions = filter (\<lambda>item. item_type item = Some ''function'') data;
          lines = (if constants \<noteq> [] then lines @ [''        // Math module constants'']
                   else lines)
      in case constant_lines_apply constants lines of
           Inl e \<Rightarrow> Inl e
         | Inr lines \<Rightarrow>
             let lines = (if functions \<noteq> [] \<and> constants \<noteq> []
                          then lines @ [[], ''        // Math module functions'']
                          else lines)
             in case method_lines_apply ''        '' functions lines of
                  Inl e \<Rightarrow> Inl e
                | Inr lines \<Rightarrow> Inr (join [LF] (lines @ [''    ]''])))"

text \<open>The markers and what \<open>main\<close> appends to the generated text.\<close>

definition builtins_start :: string where
  "builtins_start = ''    private static let builtinFunctions: [CompletionItem] = [''"

definition builtins_tail :: string where
  "builtins_tail = [LF] @ ''    '' @ [LF] @ ''    // MARK: - Built-in Type Method Definitions''"

definition math_start :: string where
  "math_start = ''    private static let mathModuleCompletions: [CompletionItem] = [''"

definition math_tail :: string where
  "math_tail = [LF] @ ''    '' @ [LF] @ ''    // MARK: - Sequence Operations''"

definition type_order_apply :: "string list" where
  "type_order_apply = [''str'', ''list'', ''dict'', ''set'', ''bytes'', ''bytearray'', ''tuple'']"

definition struct_pattern :: "string \<Rightarrow> string" where
  "struct_pattern type_name =
     (if type_name = ''bytearray'' then ''struct BytearrayMethods''
      else ''struct ('' @
             (if type_name = ''str'' then ''String''
              else if type_name \<in> set [''list'', ''dict'', ''set'', ''tuple'']
                   then capitalize type_name
              else if type_name = ''bytes'' then capitalize type_name @ ''s''
              else capitalize type_name)
           @ '')Methods'')"

text \<open>
  The loop over the types. The regular expression search is a parameter:
  \<open>re_search token content\<close> stands for \<open>struct_regex.search(content)\<close>, the pattern
  built around \<open>token = struct_pattern.split()[-1]\<close>, and gives \<open>match.group(1)\<close>.
\<close>

fun replace_structs ::
  "(string \<Rightarrow> string \<Rightarrow> string option) \<Rightarrow> (string \<rightharpoonup> item list) \<Rightarrow> string list \<Rightarrow> string
     \<Rightarrow> error + string" where
  "replace_structs re_search tm [] content = Inr content"
| "replace_structs re_search tm (type_name # rest) content =
     (case tm type_name of
        None \<Rightarrow> replace_structs re_search tm rest content
      | Some methods \<Rightarrow>
          (case generate_type_methods_struct type_name methods of
             Inl e \<Rightarrow> Inl e
           | Inr new_struct \<Rightarrow>
               (case re_search (last (split_ws (struct_pattern type_name))) content of
                  Some group1 \<Rightarrow>
                    replace_structs re_search tm rest (py_replace group1 new_struct content)
                | None \<Rightarrow> replace_structs re_search tm rest content)))"

text \<open>
  \<open>main\<close>: from the record and the text of the Swift file to the final text; the file
  is written when that text differs from the one read.
\<close>

definition main_apply ::
  "(string \<Rightarrow> string \<Rightarrow> string option) \<Rightarrow> harvest \<Rightarrow> string \<Rightarrow> error + string" where
  "main_apply re_search data original_content =
     (case split_ws (python_version data) of
        [] \<Rightarrow> Inl IndexError
      | v # vs \<Rightarrow>
          (case generate_builtin_functions_apply (builtin_functions data) of
             Inl e \<Rightarrow> Inl e
           | Inr new_builtins \<Rightarrow>
               let content = fst (replace_section original_content builtins_start
                                    (''    ]'' @ builtins_tail) (new_builtins @ builtins_tail))
               in case replace_structs re_search (type_methods data) type_order_apply content of
                    Inl e \<Rightarrow> Inl e
                  | Inr content \<Rightarrow>
                      (case generate_math_module_apply (math_module data) of
                         Inl e \<Rightarrow> Inl e
                       | Inr new_math \<Rightarrow>
                           Inr (fst (replace_section content math_start
                                       (''    ]'' @ math_tail) (new_math @ math_tail))))))"

definition writes_file ::
  "(string \<Rightarrow> string \<Rightarrow> string option) \<Rightarrow> harvest \<Rightarrow> string \<Rightarrow> bool" where
  "writes_file re_search data original_content =
     (case main_apply re_search data original_content of
        Inl e \<Rightarrow> False
      | Inr content \<Rightarrow> content \<noteq> original_content)"

section \<open>Predicates used to state the claims\<close>

text \<open>
  A text is well escaped when, read from the left, every backslash starts a pair whose
  second character is a backslash or a double quote, and no double quote stands outside
  such a pair: between double quotes it is one string literal.
\<close>

fun well_escaped :: "string \<Rightarrow> bool" where
  "well_escaped [] = True"
| "well_escaped (c # cs) =
     (if c = backslash
      then (case cs of [] \<Rightarrow> False | d # ds \<Rightarrow> (d = backslash \<or> d = dquote) \<and> well_escaped ds)
      else c \<noteq> dquote \<and> well_escaped cs)"

text \<open>
  A normalized text is empty, or words without whitespace separated by single spaces.
\<close>

fun normalized :: "string \<Rightarrow> bool" where
  "normalized [] = True"
| "normalized (c # cs) =
     (\<not> isspace c \<and>
      (case cs of
         [] \<Rightarrow> True
       | d # ds \<Rightarrow> if d = CHR '' '' then ds \<noteq> [] \<and> normalized ds else normalized cs))"

text \<open>The last step of \<open>clean_docstring\<close>: \<open>' '.join(text.split())\<close>.\<close>

abbreviation norm :: "string \<Rightarrow> string" where
  "norm s \<equiv> join '' '' (split_ws s)"

text \<open>
  The first paragraph of a docstring: the lines of the stripped text from the first
  line that is not blank up to the next blank line.
\<close>

definition first_paragraph :: "string \<Rightarrow> string list" where
  "first_paragraph doc =
     takeWhile (\<lambda>l. strip l \<noteq> []) (dropWhile (\<lambda>l. strip l = []) (split_on LF (strip doc)))"

section \<open>A sample record and Swift file\<close>

text \<open>
  A record with one built-in function and one constant, and a Swift file whose two
  marked sections hold exactly the text generated from that record;
  \<open>after_builtins\<close> and \<open>after_math\<close> are what follows the closing bracket of
  each section.
\<close>

definition sample_record :: harvest where
  "sample_record =
     \<lparr>python_version = ''3.13.0 (main)'',
      builtin_functions =
        [\<lparr>item_name = Some ''abs'', item_params = Some [''x''],
          item_doc = Some ''Absolute value.'',
          item_type = None, item_value = None\<rparr>],
      type_methods = Map.empty,
      math_module =
        [\<lparr>item_name = Some ''math.pi'', item_params = None,
          item_doc = Some ''Pi.'',
          item_type = Some ''constant'', item_value = Some ''3.14''\<rparr>]\<rparr>"

definition sample_builtins :: string where
  "sample_builtins =
     builtins_start @ [LF]
     @ ''        .function(name: '' @ quoted ''abs'' @ '', parameters: ['' @ quoted ''x''
     @ ''], documentation: '' @ quoted ''Absolute value.''
     @ ''),'' @ [LF] @ ''    ]''"

definition sample_math :: string where
  "sample_math =
     math_start @ [LF] @ ''        // Math module constants'' @ [LF]
     @ ''        .constant(name: '' @ quoted ''math.pi'' @ '', value: ''
     @ quoted ''3.14'' @ '', documentation: ''
     @ quoted ''Pi.'' @ ''),'' @ [LF] @ ''    ]''"

definition sample_file :: "string \<Rightarrow> string \<Rightarrow> string" where
  "sample_file after_builtins after_math =
     ''import Foundation'' @ [LF]
     @ sample_builtins @ after_builtins @ [LF]
     @ ''    // hand-written code'' @ [LF]
     @ sample_math @ after_math @ [LF]"

section \<open>The emitted text, described item by item\<close>

text \<open>
  The descriptions below say what the generators emit without loops and without error
  propagation; the claims compare the generators with them. An item can be rendered
  when it has a name and a documentation text.
\<close>

definition has_name_and_doc :: "item \<Rightarrow> bool" where
  "has_name_and_doc item = (item_name item \<noteq> None \<and> item_doc item \<noteq> None)"

definition item_text :: "item \<Rightarrow> bool \<Rightarrow> string" where
  "item_text item is_constant =
     (case format_swift_array_item item is_constant of Inr text \<Rightarrow> text | Inl e \<Rightarrow> [])"

definition entry :: "string \<Rightarrow> bool \<Rightarrow> item \<Rightarrow> string" where
  "entry indent is_constant item = indent @ item_text item is_constant @ '',''"

definition builtin_block :: "item list \<Rightarrow> string" where
  "builtin_block items =
     join [LF] ([''    private static let builtinFunctions: [CompletionItem] = ['']
                @ map (entry ''        '' False) items
                @ [''    ]''])"

definition type_block :: "string \<Rightarrow> item list \<Rightarrow> string" where
  "type_block type_name methods =
     join [LF] ([''    /// '' @ capitalize type_name
                   @ '' type methods - for use when type inference determines an object is a ''
                   @ type_name,
                 ''    struct '' @ (case type_map type_name of
                                      Some n \<Rightarrow> n
                                    | None \<Rightarrow> capitalize type_name @ ''Methods'') @ '' {'',
                 ''        static let methods: [CompletionItem] = ['']
                @ map (entry ''            '' False) methods
                @ [''        ]'', ''    }''])"

text \<open>
  The module block: the entries of the constants, in their order, then the entries of
  the functions, in theirs.
\<close>

definition math_block :: "item list \<Rightarrow> item list \<Rightarrow> string" where
  "math_block constants functions =
     join [LF] ([''    private static let mathModuleCompletions: [CompletionItem] = ['']
                @ (if constants \<noteq> [] then [''        // Math module constants''] else [])
                @ map (entry ''        '' True) constants
                @ (if functions \<noteq> [] \<and> constants \<noteq> []
                   then [[], ''        // Math module functions''] else [])
                @ map (entry ''        '' False) functions
                @ [''    ]''])"

definition is_constant_item :: "item \<Rightarrow> bool" where
  "is_constant_item item = (item_type item = Some ''constant'')"

definition is_function_item :: "item \<Rightarrow> bool" where
  "is_function_item item = (item_type item = Some ''function'')"

text \<open>
  The whole output: the header, the built-in functions, one section for each type of
  \<open>type_order\<close> that the record has, in that order, and the module block.
\<close>

definition emitted_text :: "string \<Rightarrow> harvest \<Rightarrow> string" where
  "emitted_text now data =
     join [LF]
       ([''// MARK: - Generated Python Completions'',
         ''// Generated from Python 3.13 documentation using inspect.getdoc()'',
         ''// Generated on: '' @ now,
         [],
         ''    // MARK: - Built-in Functions'',
         builtin_block (builtin_functions data),
         []]
        @ concat (map (\<lambda>type_name.
                         case type_methods data type_name of
                           None \<Rightarrow> []
                         | Some methods \<Rightarrow>
                             [''    // MARK: - '' @ capitalize type_name @ '' Methods'',
                              type_block type_name methods, []])
                      type_order)
        @ [''    // MARK: - Math Module'',
           math_block (filter is_constant_item (math_module data))
                      (filter is_function_item (math_module data)),
           []])"

text \<open>
  The entry of a built-in function in the apply script: the plain entry, but for an
  item named \<open>print\<close> the joined parameter text has gone through \<open>fix_print\<close>.
\<close>

definition params_text :: "item \<Rightarrow> string" where
  "params_text item =
     join '', '' (map quoted (case item_params item of None \<Rightarrow> [] | Some ps \<Rightarrow> ps))"

definition apply_entry :: "item \<Rightarrow> string" where
  "apply_entry item =
     (if item_name item = Some ''print''
      then function_line ''        '' ''print'' (fix_print (params_text item))
             (case item_doc item of None \<Rightarrow> [] | Some doc \<Rightarrow> doc) @ '',''
      else entry ''        '' False item)"

text \<open>The items that the module block keeps.\<close>

definition kept :: "item \<Rightarrow> bool" where
  "kept item = (item_type item = Some ''constant'' \<or> item_type item = Some ''function'')"

text \<open>
  What the round trip is to recover from an emitted entry: the name, the kind, the
  number of parameters (none for a constant) and the documentation.
\<close>

definition fields :: "item \<Rightarrow> bool \<Rightarrow> string option \<times> bool \<times> nat \<times> string option" where
  "fields item is_constant =
     (item_name item, is_constant,
      if is_constant then 0
      else length (case item_params item of None \<Rightarrow> [] | Some ps \<Rightarrow> ps),
      item_doc item)"

text \<open>
  An item whose name, parameters and value hold no double quote; the documentation is
  free.
\<close>

definition quote_free :: "item \<Rightarrow> bool" where
  "quote_free item =
     (dquote \<notin> set (case item_name item of None \<Rightarrow> [] | Some n \<Rightarrow> n)
      \<and> list_all (\<lambda>p. dquote \<notin> set p) (case item_params item of None \<Rightarrow> [] | Some ps \<Rightarrow> ps)
      \<and> dquote \<notin> set (case item_value item of None \<Rightarrow> [] | Some v \<Rightarrow> v))"

text \<open>
  Two items with the same entry: one parameter with the string default \<open>", "y=1\<close>,
  and two parameters whose defaults have the string forms \<open>'\<close> and \<open>1'\<close>.
\<close>

definition one_param_item :: item where
  "one_param_item =
     \<lparr>item_name = Some ''f'',
      item_params = Some [''x='' @ [squote, dquote] @ '', '' @ [dquote] @ ''y=1'' @ [squote]],
      item_doc = Some ''Doc.'', item_type = None, item_value = None\<rparr>"

definition two_param_item :: item where
  "two_param_item =
     \<lparr>item_name = Some ''f'',
      item_params = Some [''x='' @ [squote], ''y=1'' @ [squote]],
      item_doc = Some ''Doc.'', item_type = None, item_value = None\<rparr>"

text \<open>The text of a parameter whose rendering raises nothing.\<close>

definition param_text :: "parameter \<Rightarrow> string" where
  "param_text p = (case param_str p of Inr text \<Rightarrow> text | Inl e \<Rightarrow> [])"

text \<open>
  The reading of the claim about the receiver: only the first parameter is dropped, and
  only when it is the receiver \<open>self\<close>.
\<close>

definition drop_leading_receiver :: "parameter list \<Rightarrow> parameter list" where
  "drop_leading_receiver sig =
     (case sig of
        [] \<Rightarrow> []
      | p # ps \<Rightarrow> if param_name p = ''self'' then ps else p # ps)"

section \<open>Sample items\<close>

text \<open>
  Module items in the order function, item of another type without name or
  documentation, constant, item without a type.
\<close>

definition sqrt_item :: item where
  "sqrt_item = \<lparr>item_name = Some ''math.sqrt'', item_params = Some [''x''],
                 item_doc = Some ''Square root.'', item_type = Some ''function'',
                 item_value = None\<rparr>"

definition pi_item :: item where
  "pi_item = \<lparr>item_name = Some ''math.pi'', item_params = None, item_doc = Some ''Pi.'',
               item_type = Some ''constant'', item_value = Some ''3.14''\<rparr>"

definition sample_math_items :: "item list" where
  "sample_math_items =
     [sqrt_item,
      \<lparr>item_name = None, item_params = None, item_doc = None, item_type = Some ''class'',
       item_value = None\<rparr>,
      pi_item,
      \<lparr>item_name = Some ''math.tau'', item_params = None, item_doc = None, item_type = None,
       item_value = Some ''6.28''\<rparr>]"

text \<open>
  The item harvested for \<open>print\<close>: the default of \<open>end\<close> is a line feed character.
\<close>

definition abs_item :: item where
  "abs_item = \<lparr>item_name = Some ''abs'', item_params = Some [''x''],
                item_doc = Some ''Absolute value.'', item_type = None, item_value = None\<rparr>"

definition print_item :: item where
  "print_item =
     \<lparr>item_name = Some ''print'',
      item_params = Some [''*args'', ''sep='' @ [squote] @ '' '' @ [squote],
                          ''end='' @ [squote, LF, squote], ''file=None'', ''flush=False''],
      item_doc = Some ''Prints the values.'', item_type = None, item_value = None\<rparr>"

text \<open>The parameter text that the apply script emits for that item.\<close>

definition print_params_emitted :: string where
  "print_params_emitted =
     quoted ''*args'' @ '', ''
     @ quoted (''sep='' @ [squote] @ '' '' @ [squote, backslash, CHR ''n'']) @ '', ''
     @ quoted (''end='' @ [squote, backslash, backslash, CHR ''n'', LF, squote, backslash,
                           CHR ''n'']) @ '', ''
     @ quoted ''file=None'' @ '', '' @ quoted ''flush=False''"

text \<open>A record with methods for two types, given in the order list, str.\<close>

definition upper_item :: item where
  "upper_item = \<lparr>item_name = Some ''upper'', item_params = Some [],
                  item_doc = Some ''Upper case.'', item_type = None, item_value = None\<rparr>"

definition append_item :: item where
  "append_item = \<lparr>item_name = Some ''append'', item_params = Some [''object''],
                   item_doc = Some ''Append.'', item_type = None, item_value = None\<rparr>"

definition ordering_record :: harvest where
  "ordering_record =
     \<lparr>python_version = ''3.13.0'',
      builtin_functions = [abs_item],
      type_methods = [''list'' \<mapsto> [append_item], ''str'' \<mapsto> [upper_item]],
      math_module = [sqrt_item, pi_item]\<rparr>"

section \<open>Sample callables\<close>

text \<open>
  A callable with every kind of parameter the rules name, one whose signature cannot be
  read, the function \<open>def f(x, self)\<close>, which has no receiver, a function whose
  parameter has the default \<open>unittest.mock.ANY\<close>, an object that compares equal to
  everything, and a callable with a readable signature and no \<open>__name__\<close>, such as a
  \<open>functools.partial\<close> object.
\<close>

definition ordinary :: "default_value \<Rightarrow> default_object" where
  "ordinary v = \<lparr>default_value = v, differs_from_empty = Inr True\<rparr>"

definition print_callable :: callable where
  "print_callable =
     \<lparr>fn_name = Some ''print'', fn_doc = Some ''Prints the values.'',
      fn_signature = Inr
        [\<lparr>param_name = ''self'', param_default = None, param_kind = POSITIONAL_ONLY\<rparr>,
         \<lparr>param_name = ''args'', param_default = None, param_kind = VAR_POSITIONAL\<rparr>,
         \<lparr>param_name = ''sep'', param_default = Some (ordinary (DefaultStr '' '')),
          param_kind = KEYWORD_ONLY\<rparr>,
         \<lparr>param_name = ''file'', param_default = Some (ordinary DefaultNone),
          param_kind = KEYWORD_ONLY\<rparr>,
         \<lparr>param_name = ''flush'', param_default = Some (ordinary (DefaultOther (Inr ''False''))),
          param_kind = KEYWORD_ONLY\<rparr>,
         \<lparr>param_name = ''kw'', param_default = None, param_kind = VAR_KEYWORD\<rparr>,
         \<lparr>param_name = ''x'', param_default = None, param_kind = POSITIONAL_OR_KEYWORD\<rparr>]\<rparr>"

definition opaque_callable :: callable where
  "opaque_callable = \<lparr>fn_name = Some ''max'', fn_doc = None, fn_signature = Inl ValueError\<rparr>"

definition swapped_signature :: "parameter list" where
  "swapped_signature =
     [\<lparr>param_name = ''x'', param_default = None, param_kind = POSITIONAL_OR_KEYWORD\<rparr>,
      \<lparr>param_name = ''self'', param_default = None, param_kind = POSITIONAL_OR_KEYWORD\<rparr>]"

definition swapped_callable :: callable where
  "swapped_callable =
     \<lparr>fn_name = Some ''f'', fn_doc = None, fn_signature = Inr swapped_signature\<rparr>"

definition any_default_callable :: callable where
  "any_default_callable =
     \<lparr>fn_name = Some ''g'', fn_doc = None,
      fn_signature = Inr
        [\<lparr>param_name = ''x'',
          param_default = Some \<lparr>default_value = DefaultOther (Inr ''<ANY>''),
                                differs_from_empty = Inr False\<rparr>,
          param_kind = POSITIONAL_OR_KEYWORD\<rparr>]\<rparr>"

definition nameless_callable :: callable where
  "nameless_callable =
     \<lparr>fn_name = None, fn_doc = None,
      fn_signature = Inr
        [\<lparr>param_name = ''x'', param_default = None, param_kind = POSITIONAL_OR_KEYWORD\<rparr>]\<rparr>"

section \<open>Facts about searching\<close>

lemma find_first_None_iff: "find_first sub s = None \<longleftrightarrow> \<not> sublist sub s"
  by (induction s) (auto simp: sublist_Cons_right)

lemma find_first_Some_prefix:
  "find_first sub s = Some i \<Longrightarrow> i \<le> length s \<and> prefix sub (drop i s)"
  by (induction s arbitrary: i) (auto split: if_splits)

lemma find_first_Some_least:
  "find_first sub s = Some i \<Longrightarrow> j < i \<Longrightarrow> \<not> prefix sub (drop j s)"
proof (induction s arbitrary: i j)
  case Nil
  then show ?case by (simp split: if_splits)
next
  case (Cons c cs)
  show ?case
  proof (cases "prefix sub (c # cs)")
    case True
    with Cons.prems show ?thesis by simp
  next
    case False
    with Cons.prems obtain k where k: "find_first sub cs = Some k" "i = Suc k"
      by auto
    show ?thesis
    proof (cases j)
      case 0
      with False show ?thesis by simp
    next
      case (Suc j')
      with Cons.prems(2) k have "j' < k" by simp
      with Cons.IH [OF k(1)] Suc show ?thesis by simp
    qed
  qed
qed

lemma py_find_absent_iff:
  "py_find s sub start = - 1 \<longleftrightarrow> length s < start \<or> \<not> sublist sub (drop start s)"
  by (auto simp: py_find_def find_first_None_iff [symmetric] split: option.splits)

lemma py_find_found:
  assumes "py_find s sub start \<noteq> - 1"
  shows "start \<le> nat (py_find s sub start)"
    and "nat (py_find s sub start) \<le> length s"
    and "prefix sub (drop (nat (py_find s sub start)) s)"
    and "0 \<le> py_find s sub start"
proof -
  from assms obtain i where i: "\<not> length s < start" "find_first sub (drop start s) = Some i"
    by (auto simp: py_find_def split: if_splits option.splits)
  then have r: "py_find s sub start = int (start + i)"
    by (simp add: py_find_def)
  then have n: "nat (py_find s sub start) = start + i"
    by simp
  from find_first_Some_prefix [OF i(2)]
  have p: "i \<le> length s - start" "prefix sub (drop i (drop start s))" by simp_all
  show "start \<le> nat (py_find s sub start)" unfolding n by simp
  show "nat (py_find s sub start) \<le> length s" unfolding n using p(1) i(1) by simp
  show "prefix sub (drop (nat (py_find s sub start)) s)"
    unfolding n using p(2) by (simp add: add.commute)
  show "0 \<le> py_find s sub start" using r by simp
qed

section \<open>Claims about the section replacement\<close>

text \<open>
  C2. When the start marker does not occur in the file text, or the end marker does not
  occur after the first occurrence of the start marker, \<open>replace_section\<close> returns the
  text it was given, unchanged, together with exactly one warning that names the missing
  marker; it has no failing branch, so the run goes on.
\<close>

theorem replace_section_missing_marker:
  assumes "\<not> sublist start_marker content \<or>
           \<not> sublist end_marker
               (drop (nat (py_find content start_marker 0) + length start_marker) content)"
  shows "replace_section content start_marker end_marker new_content =
           (content,
            if \<not> sublist start_marker content
            then [MissingStartMarker (take 50 start_marker)]
            else [MissingEndMarker (take 50 end_marker)])"
  using assms
  by (auto simp: replace_section_def Let_def py_find_absent_iff)

theorem replace_section_missing_marker_witness:
  "\<not> sublist ''<<'' ''ab>>cd''
   \<and> replace_section ''ab>>cd'' ''<<'' ''>>'' ''new'' = (''ab>>cd'', [MissingStartMarker ''<<''])
   \<and> \<not> sublist ''>>'' (drop (nat (py_find ''ab<<cd'' ''<<'' 0) + length ''<<'') ''ab<<cd'')
   \<and> replace_section ''ab<<cd'' ''<<'' ''>>'' ''new'' = (''ab<<cd'', [MissingEndMarker ''>>''])"
proof -
  have h: "\<not> sublist ''<<'' ''ab>>cd''"
    by (simp add: sublist_Cons_right)
  have f: "py_find ''ab<<cd'' ''<<'' 0 = 2"
    by (simp add: py_find_def)
  have g: "\<not> sublist ''>>'' (drop (nat (py_find ''ab<<cd'' ''<<'' 0) + length ''<<'') ''ab<<cd'')"
    by (simp add: f sublist_Cons_right)
  have s: "sublist ''<<'' ''ab<<cd''"
    by (simp add: sublist_Cons_right)
  from replace_section_missing_marker [of "''<<''" "''ab>>cd''" "''>>''" "''new''"] h
  have 1: "replace_section ''ab>>cd'' ''<<'' ''>>'' ''new'' = (''ab>>cd'', [MissingStartMarker ''<<''])"
    by simp
  from replace_section_missing_marker [of "''<<''" "''ab<<cd''" "''>>''" "''new''"] g s
  have 2: "replace_section ''ab<<cd'' ''<<'' ''>>'' ''new'' = (''ab<<cd'', [MissingEndMarker ''>>''])"
    by simp
  show ?thesis
    by (rule conjI [OF h conjI [OF 1 conjI [OF g 2]]])
qed

section \<open>Facts about whitespace and escaping\<close>

lemma isspace_simps [simp]:
  "isspace (CHR '' '')" "isspace LF" "isspace CR" "\<not> isspace backslash" "\<not> isspace dquote"
  by (simp_all add: isspace_def)

lemma split_ws_Nil [simp]: "split_ws [] = []"
  by (simp add: split_ws.simps)

lemma split_ws_space: "isspace c \<Longrightarrow> split_ws (c # s) = split_ws s"
  by (subst split_ws.simps, subst (2) split_ws.simps) simp

lemma split_ws_word:
  "\<not> isspace c \<Longrightarrow> split_ws (c # s) =
     (c # takeWhile (\<lambda>x. \<not> isspace x) s) # split_ws (dropWhile (\<lambda>x. \<not> isspace x) s)"
  by (subst split_ws.simps) simp

lemma split_ws_word_end:
  "\<not> isspace c \<Longrightarrow> s = [] \<or> isspace (hd s) \<Longrightarrow> split_ws (c # s) = [c] # split_ws s"
  by (cases s) (auto simp: split_ws_word)

lemma split_ws_word_cont:
  "\<not> isspace c \<Longrightarrow> \<not> isspace d \<Longrightarrow>
   split_ws (c # d # s) =
     (c # d # takeWhile (\<lambda>x. \<not> isspace x) s) # split_ws (dropWhile (\<lambda>x. \<not> isspace x) s)"
  by (simp add: split_ws_word)

lemma join_Cons_Cons: "join sep ((c # w) # ws) = c # join sep (w # ws)"
  by (cases ws) simp_all

lemma norm_space: "isspace c \<Longrightarrow> norm (c # s) = norm s"
  by (simp add: split_ws_space)

lemma norm_word_cont:
  "\<not> isspace c \<Longrightarrow> \<not> isspace d \<Longrightarrow> norm (c # d # s) = c # norm (d # s)"
  by (simp add: split_ws_word join_Cons_Cons)

lemma split_ws_nonempty: "[] \<notin> set (split_ws s)"
proof (induction s rule: split_ws.induct)
  case (1 s)
  show ?case
  proof (cases "dropWhile isspace s")
    case Nil
    have "split_ws s = []"
      by (subst split_ws.simps) (simp add: Nil)
    then show ?thesis by simp
  next
    case (Cons c cs)
    have "split_ws s = (c # takeWhile (\<lambda>x. \<not> isspace x) cs)
                         # split_ws (dropWhile (\<lambda>x. \<not> isspace x) cs)"
      by (subst split_ws.simps) (simp add: Cons)
    with "1.IH" [OF Cons] show ?thesis by simp
  qed
qed

lemma join_eq_Nil: "[] \<notin> set ws \<Longrightarrow> join sep ws = [] \<longleftrightarrow> ws = []"
  by (induction sep ws rule: join.induct) auto

lemma norm_word_end:
  "\<not> isspace c \<Longrightarrow> s = [] \<or> isspace (hd s) \<Longrightarrow>
   norm (c # s) = (if norm s = [] then [c] else c # CHR '' '' # norm s)"
  using split_ws_nonempty [of s]
  by (cases "split_ws s") (auto simp: split_ws_word_end join_eq_Nil)

lemma well_escaped_space [simp]: "well_escaped (CHR '' '' # s) = well_escaped s"
  by simp

lemma well_escaped_norm: "well_escaped s \<Longrightarrow> well_escaped (norm s)"
proof (induction s rule: well_escaped.induct)
  case 1
  then show ?case by simp
next
  case (2 c cs)
  show ?case
  proof (cases "c = backslash")
    case True
    with "2.prems" obtain d ds where cs: "cs = d # ds" and d: "d = backslash \<or> d = dquote"
      and ds: "well_escaped ds"
      by (auto split: list.splits)
    from d have nd: "\<not> isspace d" by auto
    from "2.IH"(1) True cs ds have ih: "well_escaped (norm ds)" by simp
    have n1: "norm (c # d # ds) = c # norm (d # ds)"
      using True nd by (simp add: norm_word_cont)
    have "\<exists>r. norm (d # ds) = d # r \<and> well_escaped r"
    proof (cases "ds = [] \<or> isspace (hd ds)")
      case True
      then show ?thesis using nd ih by (simp add: norm_word_end)
    next
      case False
      then obtain e es where es: "ds = e # es" "\<not> isspace e" by (cases ds) auto
      then show ?thesis using nd ih by (simp add: norm_word_cont)
    qed
    then obtain r where r: "norm (d # ds) = d # r" "well_escaped r" by blast
    have "well_escaped (c # d # r)"
      using True d r(2) by auto
    then show ?thesis using cs n1 r(1) by simp
  next
    case False
    with "2.prems" have c: "c \<noteq> dquote" and w: "well_escaped cs" by auto
    from "2.IH"(2) False w have ih: "well_escaped (norm cs)" by simp
    show ?thesis
    proof (cases "isspace c")
      case True
      then show ?thesis using ih by (simp add: norm_space)
    next
      case sp: False
      show ?thesis
      proof (cases "cs = [] \<or> isspace (hd cs)")
        case True
        then show ?thesis using sp ih False c by (simp add: norm_word_end)
      next
        case nx: False
        then obtain e es where es: "cs = e # es" "\<not> isspace e" by (cases cs) auto
        then show ?thesis using sp ih False c by (simp add: norm_word_cont)
      qed
    qed
  qed
qed


lemma py_replace_single:
  "py_replace [a] new s = concat (map (\<lambda>c. if c = a then new else [c]) s)"
  by (induction s) auto

lemma split_ws_words_nonspace: "w \<in> set (split_ws s) \<Longrightarrow> c \<in> set w \<Longrightarrow> \<not> isspace c"
proof (induction s rule: split_ws.induct)
  case (1 s)
  show ?case
  proof (cases "dropWhile isspace s")
    case Nil
    have "split_ws s = []"
      by (subst split_ws.simps) (simp add: Nil)
    with "1.prems" show ?thesis by simp
  next
    case (Cons d ds)
    have e: "split_ws s = (d # takeWhile (\<lambda>x. \<not> isspace x) ds)
                         # split_ws (dropWhile (\<lambda>x. \<not> isspace x) ds)"
      by (subst split_ws.simps) (simp add: Cons)
    have d: "\<not> isspace d"
      using Cons hd_dropWhile [of isspace s] by auto
    from "1.prems" e consider "w = d # takeWhile (\<lambda>x. \<not> isspace x) ds"
      | "w \<in> set (split_ws (dropWhile (\<lambda>x. \<not> isspace x) ds))" by auto
    then show ?thesis
    proof cases
      case 1
      with "1.prems"(2) d show ?thesis by (auto dest: set_takeWhileD)
    next
      case 2
      from "1.IH" [OF Cons 2 "1.prems"(2)] show ?thesis .
    qed
  qed
qed

lemma set_join: "set (join sep ws) \<subseteq> set sep \<union> \<Union> (set ` set ws)"
  by (induction sep ws rule: join.induct) auto

lemma norm_chars: "c \<in> set (norm s) \<Longrightarrow> c = CHR '' '' \<or> \<not> isspace c"
  using set_join [of "'' ''" "split_ws s"] split_ws_words_nonspace [of _ s c]
  by auto

lemma well_escaped_pair [simp]:
  "well_escaped (backslash # backslash # r) = well_escaped r"
  "well_escaped (backslash # dquote # r) = well_escaped r"
  by simp_all

lemma well_escaped_escape_quotes:
  "well_escaped (py_replace [dquote] [backslash, dquote]
                   (py_replace [backslash] [backslash, backslash] t))"
  by (induction t) (auto simp: py_replace_single)

lemma well_escaped_replace_plain:
  assumes "a \<noteq> backslash" "a \<noteq> dquote" "b \<noteq> backslash" "b \<noteq> dquote"
  shows "well_escaped (py_replace [a] [b] s) = well_escaped s"
  using assms
  by (induction s rule: well_escaped.induct) (auto simp: py_replace_single split: list.splits)

lemma well_escaped_escape_text: "well_escaped (escape_text t)"
  by (simp add: escape_text_def well_escaped_replace_plain well_escaped_escape_quotes)

lemma normalized_word:
  "w \<noteq> [] \<Longrightarrow> \<forall>c\<in>set w. \<not> isspace c \<Longrightarrow> normalized w"
proof (induction w)
  case Nil
  then show ?case by simp
next
  case (Cons c w)
  then show ?case by (cases w) auto
qed

lemma normalized_word_space:
  "w \<noteq> [] \<Longrightarrow> \<forall>c\<in>set w. \<not> isspace c \<Longrightarrow> r \<noteq> [] \<Longrightarrow> normalized r
     \<Longrightarrow> normalized (w @ CHR '' '' # r)"
proof (induction w)
  case Nil
  then show ?case by simp
next
  case (Cons c w)
  then show ?case by (cases w) auto
qed

lemma normalized_join:
  "[] \<notin> set ws \<Longrightarrow> \<forall>w\<in>set ws. \<forall>c\<in>set w. \<not> isspace c \<Longrightarrow> normalized (join '' '' ws)"
proof (induction "'' ''" ws rule: join.induct)
  case 1
  then show ?case by simp
next
  case (2 x)
  then show ?case by (simp add: normalized_word)
next
  case (3 x y ys)
  then have ne: "join '' '' (y # ys) \<noteq> []"
    by (cases ys) auto
  from 3 have n: "normalized (join '' '' (y # ys))" by simp
  from 3 have x: "x \<noteq> []" "\<forall>c\<in>set x. \<not> isspace c" by auto
  from normalized_word_space [OF x ne n] show ?case by simp
qed

lemma normalized_norm: "normalized (norm s)"
  using split_ws_nonempty [of s] split_ws_words_nonspace [of _ s]
  by (intro normalized_join) auto

section \<open>Claims about the cleaned documentation\<close>

lemma well_escaped_quote_preceded:
  "well_escaped s \<Longrightarrow> i < length s \<Longrightarrow> s ! i = dquote \<Longrightarrow> 0 < i \<and> s ! (i - 1) = backslash"
proof (induction s arbitrary: i rule: well_escaped.induct)
  case 1
  then show ?case by simp
next
  case (2 c cs)
  show ?case
  proof (cases "c = backslash")
    case True
    with "2.prems"(1) obtain d ds where cs: "cs = d # ds" and ds: "well_escaped ds"
      by (auto split: list.splits)
    show ?thesis
    proof (cases i)
      case 0
      with "2.prems"(3) True show ?thesis by simp
    next
      case (Suc j)
      show ?thesis
      proof (cases j)
        case 0
        with Suc True show ?thesis by simp
      next
        case (Suc k)
        with \<open>i = Suc j\<close> "2.prems" cs have "k < length ds" "ds ! k = dquote" by auto
        from "2.IH"(1) [OF True cs ds this] have "0 < k" "ds ! (k - 1) = backslash" by auto
        with Suc \<open>i = Suc j\<close> cs show ?thesis by (cases k) auto
      qed
    qed
  next
    case False
    with "2.prems"(1) have c: "c \<noteq> dquote" and w: "well_escaped cs" by auto
    show ?thesis
    proof (cases i)
      case 0
      with "2.prems"(3) c show ?thesis by simp
    next
      case (Suc j)
      with "2.prems" have "j < length cs" "cs ! j = dquote" by auto
      from "2.IH"(2) [OF False w this] have "0 < j" "cs ! (j - 1) = backslash" by auto
      with Suc show ?thesis by (cases j) auto
    qed
  qed
qed

lemma split_ws_say_hi:
  "split_ws (''say '' @ [backslash, dquote] @ ''hi'' @ [backslash, dquote, backslash, backslash])
     = [''say'', [backslash, dquote] @ ''hi'' @ [backslash, dquote, backslash, backslash]]"
  by (simp add: split_ws_word split_ws_space isspace_def)

text \<open>
  C5. Whatever the docstring, the text that \<open>clean_docstring\<close> returns holds no line
  feed and no carriage return, and it is well escaped: every backslash belongs to a
  backslash pair and every double quote is the second character of such a pair. In
  particular a double quote never stands first, and the character before it is a
  backslash.
\<close>

theorem clean_docstring_escaped:
  "well_escaped (clean_docstring doc) \<and> LF \<notin> set (clean_docstring doc)
     \<and> CR \<notin> set (clean_docstring doc)
     \<and> (\<forall>i<length (clean_docstring doc).
           clean_docstring doc ! i = dquote \<longrightarrow>
           0 < i \<and> clean_docstring doc ! (i - 1) = backslash)"
proof -
  have w: "well_escaped (clean_docstring doc)"
    by (auto simp: clean_docstring_def well_escaped_norm well_escaped_escape_text
             split: option.splits)
  have "c \<in> set (clean_docstring doc) \<Longrightarrow> c = CHR '' '' \<or> \<not> isspace c" for c
    by (auto simp: clean_docstring_def split: option.splits if_splits dest: norm_chars)
  from this [of LF] this [of CR]
  have "LF \<notin> set (clean_docstring doc)" "CR \<notin> set (clean_docstring doc)"
    by auto
  with w well_escaped_quote_preceded [OF w] show ?thesis by simp
qed

theorem clean_docstring_escaped_witness:
  "clean_docstring (Some (''say '' @ [dquote] @ ''hi'' @ [dquote, backslash] @ [LF, LF] @ ''more''))
     = ''say '' @ [backslash, dquote] @ ''hi'' @ [backslash, dquote, backslash, backslash]
   \<and> (''say '' @ [backslash, dquote] @ ''hi'' @ [backslash, dquote, backslash, backslash]) ! 4
       = backslash"
proof -
  let ?d = "Some (''say '' @ [dquote] @ ''hi'' @ [dquote, backslash] @ [LF, LF] @ ''more'')"
  have e: "clean_docstring ?d
            = ''say '' @ [backslash, dquote] @ ''hi'' @ [backslash, dquote, backslash, backslash]"
    using split_ws_say_hi
    by (simp add: clean_docstring_def result_lines_of_def strip_def escape_text_def isspace_def)
  from clean_docstring_escaped [of ?d]
  have "5 < length (clean_docstring ?d) \<longrightarrow> clean_docstring ?d ! 5 = dquote \<longrightarrow>
          clean_docstring ?d ! (5 - 1) = backslash"
    by blast
  with e show ?thesis by simp
qed

section \<open>Facts about the paragraph loop\<close>

lemma accumulate_nonempty_prefix:
  "acc \<noteq> [] \<Longrightarrow>
   \<exists>xs. accumulate ls acc = acc @ xs \<and> prefix xs (map strip (takeWhile (\<lambda>l. strip l \<noteq> []) ls))"
proof (induction ls arbitrary: acc)
  case Nil
  then show ?case by simp
next
  case (Cons line rest)
  show ?case
  proof (cases "strip line = []")
    case True
    with Cons.prems show ?thesis by simp
  next
    case False
    show ?thesis
    proof (cases "300 < length (join '' '' (acc @ [strip line]))")
      case True
      with False show ?thesis by simp
    next
      case short: False
      from Cons.IH [of "acc @ [strip line]"]
      obtain xs where xs: "accumulate rest (acc @ [strip line]) = (acc @ [strip line]) @ xs"
        "prefix xs (map strip (takeWhile (\<lambda>l. strip l \<noteq> []) rest))"
        by auto
      with False short show ?thesis by simp
    qed
  qed
qed

lemma accumulate_empty_prefix:
  "prefix (accumulate ls [])
     (map strip (takeWhile (\<lambda>l. strip l \<noteq> []) (dropWhile (\<lambda>l. strip l = []) ls)))"
proof (induction ls)
  case Nil
  then show ?case by simp
next
  case (Cons line rest)
  show ?case
  proof (cases "strip line = []")
    case True
    with Cons.IH show ?thesis by simp
  next
    case False
    show ?thesis
    proof (cases "300 < length (join '' '' [strip line])")
      case True
      with False show ?thesis by simp
    next
      case short: False
      from accumulate_nonempty_prefix [of "[strip line]" rest]
      obtain xs where "accumulate rest [strip line] = [strip line] @ xs"
        "prefix xs (map strip (takeWhile (\<lambda>l. strip l \<noteq> []) rest))"
        by auto
      with False short show ?thesis by simp
    qed
  qed
qed

lemma result_lines_prefix: "prefix (result_lines_of d) (map strip (first_paragraph d))"
  using accumulate_empty_prefix [of "dropWhile (\<lambda>l. strip l = []) (split_on LF (strip d))"]
  by (simp add: result_lines_of_def first_paragraph_def)

lemma accumulate_nonempty_complete:
  "acc \<noteq> [] \<Longrightarrow>
   accumulate ls acc = acc @ map strip (takeWhile (\<lambda>l. strip l \<noteq> []) ls)
   \<or> 300 < length (join '' '' (accumulate ls acc))"
proof (induction ls arbitrary: acc)
  case Nil
  then show ?case by simp
next
  case (Cons line rest)
  show ?case
  proof (cases "strip line = []")
    case True
    with Cons.prems show ?thesis by simp
  next
    case False
    show ?thesis
    proof (cases "300 < length (join '' '' (acc @ [strip line]))")
      case True
      with False show ?thesis by simp
    next
      case short: False
      from Cons.IH [of "acc @ [strip line]"]
      have "accumulate rest (acc @ [strip line]) =
              (acc @ [strip line]) @ map strip (takeWhile (\<lambda>l. strip l \<noteq> []) rest)
            \<or> 300 < length (join '' '' (accumulate rest (acc @ [strip line])))"
        by simp
      with False short show ?thesis by auto
    qed
  qed
qed

lemma accumulate_empty_complete:
  "accumulate ls [] =
     map strip (takeWhile (\<lambda>l. strip l \<noteq> []) (dropWhile (\<lambda>l. strip l = []) ls))
   \<or> 300 < length (join '' '' (accumulate ls []))"
proof (induction ls)
  case Nil
  then show ?case by simp
next
  case (Cons line rest)
  show ?case
  proof (cases "strip line = []")
    case True
    with Cons.IH show ?thesis by simp
  next
    case False
    show ?thesis
    proof (cases "300 < length (join '' '' [strip line])")
      case True
      with False show ?thesis by simp
    next
      case short: False
      from accumulate_nonempty_complete [of "[strip line]" rest]
      have "accumulate rest [strip line] =
              [strip line] @ map strip (takeWhile (\<lambda>l. strip l \<noteq> []) rest)
            \<or> 300 < length (join '' '' (accumulate rest [strip line]))"
        by simp
      with False short show ?thesis by auto
    qed
  qed
qed

lemma result_lines_complete:
  "result_lines_of d = map strip (first_paragraph d)
   \<or> 300 < length (join '' '' (result_lines_of d))"
  using accumulate_empty_complete [of "dropWhile (\<lambda>l. strip l = []) (split_on LF (strip d))"]
  by (simp add: result_lines_of_def first_paragraph_def)

lemma join_butlast_le: "length (join sep (butlast xs)) \<le> length (join sep xs)"
  by (induction sep xs rule: join.induct) auto

lemma accumulate_bound:
  "length (join '' '' acc) \<le> 300 \<Longrightarrow>
   length (join '' '' (butlast (accumulate ls acc))) \<le> 300"
proof (induction ls arbitrary: acc)
  case Nil
  then show ?case using join_butlast_le [of "'' ''" acc] by simp
next
  case (Cons line rest)
  have b: "length (join '' '' (butlast acc)) \<le> 300"
    using Cons.prems join_butlast_le [of "'' ''" acc] by simp
  show ?case
  proof (cases "strip line = []")
    case True
    then show ?thesis using b Cons.prems Cons.IH [of acc] by auto
  next
    case False
    show ?thesis
    proof (cases "300 < length (join '' '' (acc @ [strip line]))")
      case True
      with False Cons.prems show ?thesis by simp
    next
      case short: False
      with False Cons.IH [of "acc @ [strip line]"] show ?thesis by simp
    qed
  qed
qed

lemma result_lines_bound: "length (join '' '' (butlast (result_lines_of d))) \<le> 300"
  by (simp add: result_lines_of_def accumulate_bound)

lemma dropWhile_none: "\<forall>c\<in>set xs. \<not> P c \<Longrightarrow> dropWhile P xs = xs"
  by (cases xs) auto

lemma strip_word: "\<forall>c\<in>set w. \<not> isspace c \<Longrightarrow> strip w = w"
  by (simp add: strip_def dropWhile_none)

lemma split_on_absent: "sep \<notin> set w \<Longrightarrow> split_on sep w = [w]"
  by (induction w) auto

lemma split_ws_word_only: "w \<noteq> [] \<Longrightarrow> \<forall>c\<in>set w. \<not> isspace c \<Longrightarrow> split_ws w = [w]"
proof -
  assume a: "w \<noteq> []" "\<forall>c\<in>set w. \<not> isspace c"
  then obtain c cs where w: "w = c # cs" by (cases w) auto
  with a have t: "takeWhile (\<lambda>x. \<not> isspace x) cs = cs" "dropWhile (\<lambda>x. \<not> isspace x) cs = []"
    by auto
  from a w show ?thesis by (simp add: split_ws_word t)
qed

lemma py_replace_absent: "a \<notin> set w \<Longrightarrow> py_replace [a] new w = w"
  by (induction w) auto

lemma clean_docstring_plain_word:
  assumes "w \<noteq> []" and "\<forall>c\<in>set w. \<not> isspace c \<and> c \<noteq> backslash \<and> c \<noteq> dquote"
  shows "clean_docstring (Some w) = w"
proof -
  from assms(2) have ns: "\<forall>c\<in>set w. \<not> isspace c" by blast
  then have s: "strip w = w" by (rule strip_word)
  have lf: "LF \<notin> set w" "CR \<notin> set w" using ns by auto
  have bq: "backslash \<notin> set w" "dquote \<notin> set w" using assms(2) by auto
  have "result_lines_of w = [w]"
    using assms(1) by (simp add: result_lines_of_def s split_on_absent [OF lf(1)] Let_def)
  moreover have "escape_text w = w"
    by (simp add: escape_text_def py_replace_absent lf bq)
  ultimately show ?thesis
    using assms(1) by (simp add: clean_docstring_def split_ws_word_only [OF assms(1) ns])
qed

text \<open>
  C4, as the code has it. The text returned is normalized (no whitespace at either end,
  no whitespace but single spaces between words). It is made, by escaping and
  normalizing, from the stripped lines of the first paragraph, taken from the start: the
  loop stops at the first blank line, or as soon as the joined lines are longer than 300
  characters. So the lines taken are the whole first paragraph unless their joined text
  is longer than 300 characters, and the lines before the last one are together at
  most 300 characters long; the returned text itself has no bound.
\<close>

theorem clean_docstring_shape:
  "normalized (clean_docstring doc)
   \<and> clean_docstring (Some d) =
       (if d = [] then [] else norm (escape_text (join '' '' (result_lines_of d))))
   \<and> prefix (result_lines_of d) (map strip (first_paragraph d))
   \<and> (result_lines_of d = map strip (first_paragraph d)
        \<or> 300 < length (join '' '' (result_lines_of d)))
   \<and> length (join '' '' (butlast (result_lines_of d))) \<le> 300"
  using result_lines_complete [of d]
  by (auto simp: clean_docstring_def normalized_norm result_lines_prefix result_lines_bound
           split: option.splits)

text \<open>
  A docstring of 301 letters on one line comes back whole: the returned text is longer
  than 300 characters.
\<close>

theorem clean_docstring_length_counterexample:
  "\<not> length (clean_docstring (Some (replicate 301 (CHR ''a'')))) \<le> 300"
proof -
  have "clean_docstring (Some (replicate 301 (CHR ''a''))) = replicate 301 (CHR ''a'')"
    by (rule clean_docstring_plain_word) (auto simp: isspace_def)
  then show ?thesis by simp
qed

section \<open>Claims about the section replacement as main uses it\<close>

lemma replace_section_found:
  assumes "py_find content start_marker 0 \<noteq> - 1"
    and "py_find content end_marker
           (nat (py_find content start_marker 0) + length start_marker) \<noteq> - 1"
  shows "replace_section content start_marker end_marker new_content =
           (take (nat (py_find content start_marker 0)) content @ new_content
            @ drop (nat (py_find content end_marker
                           (nat (py_find content start_marker 0) + length start_marker)))
                content, [])"
  using assms by (simp add: replace_section_def Let_def)

text \<open>
  C1. On the text \<open>pre<A>old<B>post\<close> with the markers \<open><A>\<close> and \<open><B>\<close> the
  function removes the start marker with the old text and keeps the end marker: the
  two markers are not treated alike. With a snippet that brings both markers, which is
  how \<open>main\<close> calls the function, the end marker then stands twice in the result.
\<close>

theorem replace_section_markers_unequal:
  "replace_section ''pre<A>old<B>post'' ''<A>'' ''<B>'' ''NEW'' = (''preNEW<B>post'', [])
   \<and> replace_section ''pre<A>old<B>post'' ''<A>'' ''<B>'' ''<A>new<B>''
       = (''pre<A>new<B><B>post'', [])"
  by (simp add: replace_section_def py_find_def)

lemma split_ws_sample: "split_ws ''3.13.0 (main)'' = [''3.13.0'', ''(main)'']"
  by (simp add: split_ws.simps isspace_def)

lemmas sample_defs =
  main_apply_def sample_record_def sample_file_def sample_builtins_def sample_math_def
  generate_builtin_functions_apply_def generate_math_module_apply_def function_line_def
  quoted_def type_order_apply_def replace_section_def py_find_def builtins_start_def
  builtins_tail_def math_start_def math_tail_def split_ws_sample

lemma sample_first_run:
  "main_apply re_search sample_record (sample_file builtins_tail math_tail) =
     Inr (sample_file (builtins_tail @ ''    ]'' @ builtins_tail)
                      (math_tail @ ''    ]'' @ math_tail))"
  by (simp add: sample_defs)

lemma sample_second_run:
  "main_apply re_search sample_record
     (sample_file (builtins_tail @ ''    ]'' @ builtins_tail) (math_tail @ ''    ]'' @ math_tail)) =
     Inr (sample_file (builtins_tail @ ''    ]'' @ builtins_tail @ ''    ]'' @ builtins_tail)
                      (math_tail @ ''    ]'' @ math_tail @ ''    ]'' @ math_tail))"
  by (simp add: sample_defs)

lemma sample_runs_differ:
  "sample_file (builtins_tail @ ''    ]'' @ builtins_tail @ ''    ]'' @ builtins_tail)
               (math_tail @ ''    ]'' @ math_tail @ ''    ]'' @ math_tail)
   \<noteq> sample_file (builtins_tail @ ''    ]'' @ builtins_tail) (math_tail @ ''    ]'' @ math_tail)"
  by (simp add: sample_file_def builtins_tail_def math_tail_def)

text \<open>
  C3. The sample file already holds the text generated from the sample record. A run of
  \<open>main\<close> on it puts a second copy of each end marker behind the generated section, a
  second run on the result a third copy: the second run changes its input, and the file
  is written again.
\<close>

theorem apply_twice_changes_file:
  "main_apply re_search sample_record (sample_file builtins_tail math_tail) =
     Inr (sample_file (builtins_tail @ ''    ]'' @ builtins_tail)
                      (math_tail @ ''    ]'' @ math_tail))
   \<and> main_apply re_search sample_record
         (sample_file (builtins_tail @ ''    ]'' @ builtins_tail)
                      (math_tail @ ''    ]'' @ math_tail)) =
       Inr (sample_file (builtins_tail @ ''    ]'' @ builtins_tail @ ''    ]'' @ builtins_tail)
                        (math_tail @ ''    ]'' @ math_tail @ ''    ]'' @ math_tail))
   \<and> sample_file (builtins_tail @ ''    ]'' @ builtins_tail @ ''    ]'' @ builtins_tail)
                   (math_tail @ ''    ]'' @ math_tail @ ''    ]'' @ math_tail)
       \<noteq> sample_file (builtins_tail @ ''    ]'' @ builtins_tail)
                       (math_tail @ ''    ]'' @ math_tail)
   \<and> writes_file re_search sample_record
         (sample_file (builtins_tail @ ''    ]'' @ builtins_tail)
                      (math_tail @ ''    ]'' @ math_tail))"
  using sample_first_run [of re_search] sample_second_run [of re_search] sample_runs_differ
  by (simp add: writes_file_def)

section \<open>Claims about the harvested signatures\<close>

lemma signature_params_filter:
  "\<forall>p\<in>set ps. param_name p \<noteq> ''self'' \<longrightarrow> param_str p = Inr (param_text p) \<Longrightarrow>
   signature_params ps params =
     Inr (params @ map param_text (filter (\<lambda>p. param_name p \<noteq> ''self'') ps))"
  by (induction ps arbitrary: params) auto

lemma harvest_builtin_item_failed:
  "get_function_signature func = Inl e \<Longrightarrow>
   item_name (harvest_builtin_item name func) = Some name
   \<and> item_params (harvest_builtin_item name func) = Some []"
  by (simp add: harvest_builtin_item_def)

lemma get_function_signature_unreadable:
  "fn_signature func = Inl e \<Longrightarrow>
   get_function_signature func =
     (if e = ValueError \<or> e = TypeError
      then (case fn_name func of None \<Rightarrow> Inl AttributeError | Some n \<Rightarrow> Inr (n, []))
      else Inl e)"
  by (simp add: get_function_signature_def try_signature_def)

lemma get_function_signature_nameless:
  "fn_name func = None \<Longrightarrow> \<exists>e. get_function_signature func = Inl e"
  by (auto simp: get_function_signature_def try_signature_def split: sum.splits)

text \<open>
  C6, as the code has it. For a callable with a \<open>__name__\<close> whose signature can be
  read and whose parameters render without an exception, the result holds the
  parameters in signature order without every parameter named \<open>self\<close>, whatever its
  position. A parameter whose default compares unequal to the marker
  \<open>Parameter.empty\<close> renders as \<open>name='value'\<close> for a string, as \<open>name=None\<close>
  for \<open>None\<close>, as \<open>name=\<close> and the string form otherwise; a parameter without a
  default, or with a default that does not compare unequal to the marker, renders as
  \<open>*name\<close> when variadic positional, as \<open>**name\<close> when variadic keyword, as its bare
  name otherwise. When reading the signature raises \<open>ValueError\<close> or \<open>TypeError\<close>
  the function returns the name and no parameters; a callable without \<open>__name__\<close>
  makes it raise. Whenever the signature cannot be read or the function raises, the
  harvested item is still produced, with its documentation and an empty parameter list.
\<close>

theorem get_function_signature_rules:
  "(fn_signature func = Inr sig \<and> fn_name func = Some n
      \<and> (\<forall>p\<in>set sig. param_name p \<noteq> ''self'' \<longrightarrow> param_str p = Inr (param_text p)) \<longrightarrow>
      get_function_signature func =
        Inr (n, map param_text (filter (\<lambda>p. param_name p \<noteq> ''self'') sig)))
   \<and> ((fn_signature func = Inl ValueError \<or> fn_signature func = Inl TypeError)
        \<and> fn_name func = Some n \<longrightarrow>
        get_function_signature func = Inr (n, []))
   \<and> (fn_name func = None \<longrightarrow> (\<exists>e. get_function_signature func = Inl e))
   \<and> (fn_signature func = Inl e \<or> get_function_signature func = Inl e \<longrightarrow>
        item_params (harvest_builtin_item name func) = Some [])
   \<and> item_doc (harvest_builtin_item name func) = Some (clean_docstring (fn_doc func))
   \<and> param_str \<lparr>param_name = m, param_default = Some (ordinary (DefaultStr v)),
                  param_kind = k\<rparr>
        = Inr (m @ ''='' @ [squote] @ v @ [squote])
   \<and> param_str \<lparr>param_name = m, param_default = Some (ordinary DefaultNone), param_kind = k\<rparr>
        = Inr (m @ ''=None'')
   \<and> param_str \<lparr>param_name = m, param_default = Some (ordinary (DefaultOther (Inr v))),
                  param_kind = k\<rparr>
        = Inr (m @ ''='' @ v)
   \<and> param_str \<lparr>param_name = m,
                  param_default = Some \<lparr>default_value = d, differs_from_empty = Inr False\<rparr>,
                  param_kind = k\<rparr>
        = param_str \<lparr>param_name = m, param_default = None, param_kind = k\<rparr>
   \<and> param_str \<lparr>param_name = m, param_default = None, param_kind = VAR_POSITIONAL\<rparr>
        = Inr (''*'' @ m)
   \<and> param_str \<lparr>param_name = m, param_default = None, param_kind = VAR_KEYWORD\<rparr>
        = Inr (''**'' @ m)
   \<and> (k \<noteq> VAR_POSITIONAL \<and> k \<noteq> VAR_KEYWORD \<longrightarrow>
        param_str \<lparr>param_name = m, param_default = None, param_kind = k\<rparr> = Inr m)"
proof -
  have 1: "fn_signature func = Inr sig \<and> fn_name func = Some n
      \<and> (\<forall>p\<in>set sig. param_name p \<noteq> ''self'' \<longrightarrow> param_str p = Inr (param_text p)) \<longrightarrow>
      get_function_signature func =
        Inr (n, map param_text (filter (\<lambda>p. param_name p \<noteq> ''self'') sig))"
    by (simp add: get_function_signature_def try_signature_def signature_params_filter)
  have 2: "(fn_signature func = Inl ValueError \<or> fn_signature func = Inl TypeError)
        \<and> fn_name func = Some n \<longrightarrow>
        get_function_signature func = Inr (n, [])"
    by (auto simp: get_function_signature_unreadable)
  have 3: "fn_name func = None \<longrightarrow> (\<exists>e. get_function_signature func = Inl e)"
    by (simp add: get_function_signature_nameless)
  have 4: "fn_signature func = Inl e \<or> get_function_signature func = Inl e \<longrightarrow>
        item_params (harvest_builtin_item name func) = Some []"
  proof
    assume "fn_signature func = Inl e \<or> get_function_signature func = Inl e"
    then show "item_params (harvest_builtin_item name func) = Some []"
    proof
      assume "fn_signature func = Inl e"
      then show ?thesis
        by (cases "fn_name func")
           (simp_all add: harvest_builtin_item_def get_function_signature_unreadable)
    next
      assume "get_function_signature func = Inl e"
      then show ?thesis by (simp add: harvest_builtin_item_failed)
    qed
  qed
  have 5: "item_doc (harvest_builtin_item name func) = Some (clean_docstring (fn_doc func))"
    by (simp add: harvest_builtin_item_def Let_def split: prod.splits)
  have 6: "param_str \<lparr>param_name = m, param_default = Some (ordinary (DefaultStr v)),
                  param_kind = k\<rparr>
        = Inr (m @ ''='' @ [squote] @ v @ [squote])"
    "param_str \<lparr>param_name = m, param_default = Some (ordinary DefaultNone), param_kind = k\<rparr>
        = Inr (m @ ''=None'')"
    "param_str \<lparr>param_name = m, param_default = Some (ordinary (DefaultOther (Inr v))),
                  param_kind = k\<rparr>
        = Inr (m @ ''='' @ v)"
    "param_str \<lparr>param_name = m,
                  param_default = Some \<lparr>default_value = d, differs_from_empty = Inr False\<rparr>,
                  param_kind = k\<rparr>
        = param_str \<lparr>param_name = m, param_default = None, param_kind = k\<rparr>"
    "param_str \<lparr>param_name = m, param_default = None, param_kind = VAR_POSITIONAL\<rparr>
        = Inr (''*'' @ m)"
    "param_str \<lparr>param_name = m, param_default = None, param_kind = VAR_KEYWORD\<rparr>
        = Inr (''**'' @ m)"
    "k \<noteq> VAR_POSITIONAL \<and> k \<noteq> VAR_KEYWORD \<longrightarrow>
        param_str \<lparr>param_name = m, param_default = None, param_kind = k\<rparr> = Inr m"
    by (simp_all add: param_str_def plain_param_def ordinary_def)
  show ?thesis
    by (intro conjI) (rule 1 2 3 4 5 6)+
qed

lemma print_callable_params:
  "\<forall>p\<in>set (projr (fn_signature print_callable)).
     param_name p \<noteq> ''self'' \<longrightarrow> param_str p = Inr (param_text p)"
  by (simp add: print_callable_def param_text_def param_str_def ordinary_def)

theorem get_function_signature_rules_witness:
  "get_function_signature print_callable =
     Inr (''print'', [''*args'', ''sep='' @ [squote] @ '' '' @ [squote], ''file=None'',
                      ''flush=False'', ''**kw'', ''x''])
   \<and> fn_signature opaque_callable = Inl ValueError
   \<and> get_function_signature opaque_callable = Inr (''max'', [])
   \<and> item_params (harvest_builtin_item ''max'' opaque_callable) = Some []
   \<and> fn_name nameless_callable = None
   \<and> item_params (harvest_builtin_item ''partial'' nameless_callable) = Some []"
proof -
  have s: "fn_signature print_callable = Inr (projr (fn_signature print_callable))"
    "fn_name print_callable = Some ''print''"
    by (simp_all add: print_callable_def)
  from get_function_signature_rules
         [of print_callable "projr (fn_signature print_callable)" "''print''"]
       s print_callable_params
  have "get_function_signature print_callable =
          Inr (''print'', map param_text (filter (\<lambda>p. param_name p \<noteq> ''self'')
                                            (projr (fn_signature print_callable))))"
    by blast
  then have a: "get_function_signature print_callable =
     Inr (''print'', [''*args'', ''sep='' @ [squote] @ '' '' @ [squote], ''file=None'',
                      ''flush=False'', ''**kw'', ''x''])"
    by (simp add: print_callable_def param_text_def param_str_def plain_param_def ordinary_def)
  have o: "fn_signature opaque_callable = Inl ValueError" "fn_name opaque_callable = Some ''max''"
    by (simp_all add: opaque_callable_def)
  from get_function_signature_rules [of opaque_callable _ "''max''" ValueError "''max''"] o
  have b: "get_function_signature opaque_callable = Inr (''max'', [])"
    and c: "item_params (harvest_builtin_item ''max'' opaque_callable) = Some []"
    by blast+
  have n: "fn_name nameless_callable = None"
    by (simp add: nameless_callable_def)
  from get_function_signature_rules [of nameless_callable] n
  obtain e where "get_function_signature nameless_callable = Inl e"
    by blast
  with get_function_signature_rules [of nameless_callable _ _ e "''partial''"]
  have d: "item_params (harvest_builtin_item ''partial'' nameless_callable) = Some []"
    by blast
  show ?thesis
    by (rule conjI [OF a conjI [OF o(1) conjI [OF b conjI [OF c conjI [OF n d]]]]])
qed

text \<open>
  For \<open>def f(x, self)\<close> the second parameter is dropped although it is no leading
  receiver. For \<open>def g(x=ANY)\<close> the parameter has a default and renders as its bare
  name. A callable without \<open>__name__\<close> has a readable signature and yet no result.
\<close>

theorem get_function_signature_receiver_counterexample:
  "get_function_signature swapped_callable = Inr (''f'', [''x''])
   \<and> get_function_signature swapped_callable \<noteq>
       Inr (''f'', map param_text (drop_leading_receiver swapped_signature))
   \<and> get_function_signature any_default_callable = Inr (''g'', [''x''])
   \<and> get_function_signature nameless_callable = Inl AttributeError"
  by (simp add: get_function_signature_def try_signature_def swapped_callable_def
                swapped_signature_def drop_leading_receiver_def param_text_def param_str_def
                plain_param_def any_default_callable_def nameless_callable_def)

section \<open>Facts about the generators\<close>

lemma format_named:
  "has_name_and_doc item \<Longrightarrow> format_swift_array_item item c = Inr (item_text item c)"
  by (auto simp: has_name_and_doc_def item_text_def format_swift_array_item_def Let_def)

lemma append_items_named:
  "\<forall>i\<in>set items. has_name_and_doc i \<Longrightarrow>
   append_items indent c items lines = Inr (lines @ map (entry indent c) items)"
  by (induction items arbitrary: lines) (auto simp: format_named entry_def)

lemma generate_builtin_functions_named:
  "\<forall>i\<in>set items. has_name_and_doc i \<Longrightarrow>
   generate_builtin_functions items = Inr (builtin_block items)"
  by (simp add: generate_builtin_functions_def builtin_block_def append_items_named)

lemma generate_type_methods_named:
  "\<forall>i\<in>set methods. has_name_and_doc i \<Longrightarrow>
   generate_type_methods type_name methods = Inr (type_block type_name methods)"
  by (simp add: generate_type_methods_def type_block_def append_items_named)

lemma kept_filters:
  "filter (\<lambda>item. item_type item = Some ''constant'') (filter kept data) =
     filter (\<lambda>item. item_type item = Some ''constant'') data"
  "filter (\<lambda>item. item_type item = Some ''function'') (filter kept data) =
     filter (\<lambda>item. item_type item = Some ''function'') data"
  by (induction data) (auto simp: kept_def)

lemma generate_math_module_named:
  assumes "\<forall>i\<in>set data. kept i \<longrightarrow> has_name_and_doc i"
  shows "generate_math_module data =
           Inr (math_block (filter is_constant_item data) (filter is_function_item data))"
proof -
  have c: "\<forall>i\<in>set (filter (\<lambda>item. item_type item = Some ''constant'') data). has_name_and_doc i"
    and f: "\<forall>i\<in>set (filter (\<lambda>item. item_type item = Some ''function'') data). has_name_and_doc i"
    using assms by (auto simp: kept_def)
  show ?thesis
    unfolding generate_math_module_def math_block_def is_constant_item_def is_function_item_def
    by (simp add: Let_def append_items_named [OF c] append_items_named [OF f])
qed

lemma function_line_text:
  "item_name item = Some n \<Longrightarrow> item_doc item = Some d \<Longrightarrow>
   function_line indent n (params_text item) d = indent @ item_text item False"
  by (simp add: function_line_def item_text_def format_swift_array_item_def params_text_def)

lemma method_lines_apply_named:
  "\<forall>i\<in>set items. has_name_and_doc i \<Longrightarrow>
   method_lines_apply indent items lines = Inr (lines @ map (entry indent False) items)"
proof (induction items arbitrary: lines)
  case Nil
  then show ?case by simp
next
  case (Cons item rest)
  then obtain n d where nd: "item_name item = Some n" "item_doc item = Some d"
    by (auto simp: has_name_and_doc_def)
  from Cons show ?case
    using function_line_text [OF nd, of indent]
    by (simp add: nd entry_def params_text_def)
qed

lemma constant_lines_apply_named:
  "\<forall>i\<in>set items. has_name_and_doc i \<Longrightarrow>
   constant_lines_apply items lines = Inr (lines @ map (entry ''        '' True) items)"
proof (induction items arbitrary: lines)
  case Nil
  then show ?case by simp
next
  case (Cons item rest)
  then obtain n d where nd: "item_name item = Some n" "item_doc item = Some d"
    by (auto simp: has_name_and_doc_def)
  from Cons show ?case
    by (simp add: nd entry_def item_text_def format_swift_array_item_def)
qed

lemma generate_math_module_apply_named:
  assumes "\<forall>i\<in>set data. kept i \<longrightarrow> has_name_and_doc i"
  shows "generate_math_module_apply data =
           Inr (math_block (filter is_constant_item data) (filter is_function_item data))"
proof -
  have c: "\<forall>i\<in>set (filter (\<lambda>item. item_type item = Some ''constant'') data). has_name_and_doc i"
    and f: "\<forall>i\<in>set (filter (\<lambda>item. item_type item = Some ''function'') data). has_name_and_doc i"
    using assms by (auto simp: kept_def)
  show ?thesis
    unfolding generate_math_module_apply_def math_block_def is_constant_item_def
      is_function_item_def
    by (simp add: Let_def constant_lines_apply_named [OF c] method_lines_apply_named [OF f])
qed

lemma builtin_lines_apply_named:
  "\<forall>i\<in>set items. has_name_and_doc i \<Longrightarrow>
   builtin_lines_apply items lines = Inr (lines @ map apply_entry items)"
proof (induction items arbitrary: lines)
  case Nil
  then show ?case by simp
next
  case (Cons item rest)
  then obtain n d where nd: "item_name item = Some n" "item_doc item = Some d"
    by (auto simp: has_name_and_doc_def)
  from Cons show ?case
    using function_line_text [OF nd, of "''        ''"]
    by (simp add: nd apply_entry_def entry_def params_text_def)
qed

lemma type_sections_named:
  "\<forall>t\<in>set ts. \<forall>m. tm t = Some m \<longrightarrow> (\<forall>i\<in>set m. has_name_and_doc i) \<Longrightarrow>
   type_sections tm ts swift_code =
     Inr (swift_code @ concat (map (\<lambda>type_name.
                         case tm type_name of
                           None \<Rightarrow> []
                         | Some methods \<Rightarrow>
                             [''    // MARK: - '' @ capitalize type_name @ '' Methods'',
                              type_block type_name methods, []]) ts))"
proof (induction ts arbitrary: swift_code)
  case Nil
  then show ?case by simp
next
  case (Cons t ts)
  show ?case
  proof (cases "tm t")
    case None
    with Cons show ?thesis by simp
  next
    case (Some m)
    with Cons.prems have "\<forall>i\<in>set m. has_name_and_doc i" by simp
    then have "generate_type_methods t m = Inr (type_block t m)"
      by (rule generate_type_methods_named)
    with Some Cons show ?thesis by simp
  qed
qed


lemma join_Cons: "join sep (x # r) = x @ (if r = [] then [] else sep @ join sep r)"
  by (cases r) simp_all

lemma join_around:
  "join sep (as @ x # r) =
     (if as = [] then [] else join sep as @ sep) @ x @ (if r = [] then [] else sep @ join sep r)"
proof (induction as)
  case Nil
  show ?case by (simp add: join_Cons)
next
  case (Cons a as)
  show ?case
    by (subst append_Cons, subst join_Cons, subst Cons.IH) (simp add: join_Cons)
qed

lemma join_two_in_order:
  "\<exists>pre mid post. join sep (as @ x # bs @ y # cs) = pre @ x @ mid @ y @ post"
proof -
  obtain p1 q1 where 1: "join sep (as @ x # (bs @ y # cs)) = p1 @ x @ sep @ join sep (bs @ y # cs)"
    using join_around [of sep as x "bs @ y # cs"] by auto
  obtain p2 q2 where 2: "join sep (bs @ y # cs) = p2 @ y @ q2"
    using join_around [of sep bs y cs] by auto
  show ?thesis using 1 2 by (metis append.assoc)
qed

lemma math_block_order:
  assumes "c \<in> set constants" "f \<in> set functions"
  shows "\<exists>pre mid post. math_block constants functions =
           pre @ entry ''        '' True c @ mid @ entry ''        '' False f @ post"
proof -
  from assms obtain c1 c2 f1 f2 where s: "constants = c1 @ c # c2" "functions = f1 @ f # f2"
    by (meson split_list)
  define L1 where "L1 = [''    private static let mathModuleCompletions: [CompletionItem] = ['']
      @ (if constants \<noteq> [] then [''        // Math module constants''] else [])
      @ map (entry ''        '' True) c1"
  define L2 where "L2 = map (entry ''        '' True) c2
      @ (if functions \<noteq> [] \<and> constants \<noteq> []
         then [[], ''        // Math module functions''] else [])
      @ map (entry ''        '' False) f1"
  define L3 where "L3 = map (entry ''        '' False) f2 @ [''    ]'']"
  have "math_block constants functions =
          join [LF] (L1 @ entry ''        '' True c # L2 @ entry ''        '' False f # L3)"
    unfolding math_block_def L1_def L2_def L3_def by (simp add: s)
  then show ?thesis
    using join_two_in_order [of "[LF]" L1 "entry ''        '' True c" L2
                               "entry ''        '' False f" L3]
    by simp
qed

lemma capitalize_samples: "capitalize ''str'' = ''Str''" "capitalize ''list'' = ''List''"
  by code_simp+

lemma fix_print_sample: "fix_print (params_text print_item) = print_params_emitted"
  by (simp add: fix_print_def params_text_def print_item_def print_params_emitted_def quoted_def)

section \<open>Claims about the emitted text\<close>

text \<open>
  C10. The module block depends only on the items whose type is \<open>constant\<close> or
  \<open>function\<close>: both generators give the same result, error or text, when every
  other item is removed from the list first. When the kept items have a name and a
  documentation text, the result is the block with the entries of exactly the kept
  items, whatever the other items hold or lack, and nothing stands in for the others.
\<close>

theorem math_module_keeps_constants_and_functions:
  "generate_math_module data = generate_math_module (filter kept data)
   \<and> generate_math_module_apply data = generate_math_module_apply (filter kept data)
   \<and> ((\<forall>i\<in>set data. kept i \<longrightarrow> has_name_and_doc i) \<longrightarrow>
        generate_math_module data =
          Inr (math_block (filter is_constant_item data) (filter is_function_item data))
        \<and> generate_math_module_apply data =
          Inr (math_block (filter is_constant_item data) (filter is_function_item data)))"
proof -
  have a: "generate_math_module data = generate_math_module (filter kept data)"
    unfolding generate_math_module_def kept_filters ..
  have b: "generate_math_module_apply data = generate_math_module_apply (filter kept data)"
    unfolding generate_math_module_apply_def kept_filters ..
  have c: "(\<forall>i\<in>set data. kept i \<longrightarrow> has_name_and_doc i) \<longrightarrow>
        generate_math_module data =
          Inr (math_block (filter is_constant_item data) (filter is_function_item data))
        \<and> generate_math_module_apply data =
          Inr (math_block (filter is_constant_item data) (filter is_function_item data))"
    by (simp add: generate_math_module_named generate_math_module_apply_named)
  show ?thesis
    by (rule conjI [OF a conjI [OF b c]])
qed

theorem math_module_keeps_constants_and_functions_witness:
  "generate_math_module sample_math_items = Inr (math_block [pi_item] [sqrt_item])
   \<and> generate_math_module_apply sample_math_items = Inr (math_block [pi_item] [sqrt_item])
   \<and> filter kept sample_math_items = [sqrt_item, pi_item]"
proof -
  have h: "\<forall>i\<in>set sample_math_items. kept i \<longrightarrow> has_name_and_doc i"
    by (simp add: sample_math_items_def kept_def has_name_and_doc_def sqrt_item_def pi_item_def)
  have c: "filter is_constant_item sample_math_items = [pi_item]"
    by (simp add: sample_math_items_def is_constant_item_def sqrt_item_def pi_item_def)
  have f: "filter is_function_item sample_math_items = [sqrt_item]"
    by (simp add: sample_math_items_def is_function_item_def sqrt_item_def pi_item_def)
  have k: "filter kept sample_math_items = [sqrt_item, pi_item]"
    by (simp add: sample_math_items_def kept_def sqrt_item_def pi_item_def)
  from math_module_keeps_constants_and_functions [of sample_math_items] h
  have "generate_math_module sample_math_items =
          Inr (math_block (filter is_constant_item sample_math_items)
                          (filter is_function_item sample_math_items))
        \<and> generate_math_module_apply sample_math_items =
          Inr (math_block (filter is_constant_item sample_math_items)
                          (filter is_function_item sample_math_items))"
    by blast
  then show ?thesis
    by (simp only: c f k)
qed

text \<open>
  C7. For a record whose version has a word and whose emitted items have a name and a
  documentation text, \<open>main\<close> writes the header, the built-in functions, one section
  for each type of the fixed list \<open>type_order\<close> that the record holds, in the order
  of that list, and the module block, in which the constants come before the functions,
  each group in the order of the record. Whichever constant and function of the module
  are taken, the entry of the constant stands before the entry of the function.
\<close>

theorem main_generate_order:
  assumes "split_ws (python_version data) \<noteq> []"
    and "\<forall>i\<in>set (builtin_functions data). has_name_and_doc i"
    and "\<forall>t\<in>set type_order. \<forall>m. type_methods data t = Some m \<longrightarrow> (\<forall>i\<in>set m. has_name_and_doc i)"
    and "\<forall>i\<in>set (math_module data). kept i \<longrightarrow> has_name_and_doc i"
  shows "main_generate now data = Inr (emitted_text now data)
         \<and> (\<forall>c f. c \<in> set (math_module data) \<and> is_constant_item c
                  \<and> f \<in> set (math_module data) \<and> is_function_item f \<longrightarrow>
               (\<exists>pre mid post.
                  math_block (filter is_constant_item (math_module data))
                             (filter is_function_item (math_module data)) =
                  pre @ entry ''        '' True c @ mid @ entry ''        '' False f @ post))"
proof -
  from assms(1) obtain v vs where v: "split_ws (python_version data) = v # vs"
    by (cases "split_ws (python_version data)") auto
  have "main_generate now data = Inr (emitted_text now data)"
    unfolding main_generate_def emitted_text_def
    by (simp add: v Let_def generate_builtin_functions_named [OF assms(2)]
                  type_sections_named [OF assms(3)] generate_math_module_named [OF assms(4)])
  moreover have "\<exists>pre mid post.
                  math_block (filter is_constant_item (math_module data))
                             (filter is_function_item (math_module data)) =
                  pre @ entry ''        '' True c @ mid @ entry ''        '' False f @ post"
    if "c \<in> set (math_module data)" "is_constant_item c"
       "f \<in> set (math_module data)" "is_function_item f" for c f
    using that by (intro math_block_order) auto
  ultimately show ?thesis by blast
qed


theorem main_generate_order_witness:
  "main_generate ''2026'' ordering_record =
     Inr (join [LF]
       [''// MARK: - Generated Python Completions'',
        ''// Generated from Python 3.13 documentation using inspect.getdoc()'',
        ''// Generated on: 2026'',
        [],
        ''    // MARK: - Built-in Functions'',
        ''    private static let builtinFunctions: [CompletionItem] = ['',
        ''        .function(name: '' @ quoted ''abs'' @ '', parameters: ['' @ quoted ''x''
          @ ''], documentation: '' @ quoted ''Absolute value.'' @ ''),'',
        ''    ]'',
        [],
        ''    // MARK: - Str Methods'',
        ''    /// Str type methods - for use when type inference determines an object is a str'',
        ''    struct StringMethods {'',
        ''        static let methods: [CompletionItem] = ['',
        ''            .function(name: '' @ quoted ''upper'' @ '', parameters: [], documentation: ''
          @ quoted ''Upper case.'' @ ''),'',
        ''        ]'',
        ''    }'',
        [],
        ''    // MARK: - List Methods'',
        ''    /// List type methods - for use when type inference determines an object is a list'',
        ''    struct ListMethods {'',
        ''        static let methods: [CompletionItem] = ['',
        ''            .function(name: '' @ quoted ''append'' @ '', parameters: ['' @ quoted ''object''
          @ ''], documentation: '' @ quoted ''Append.'' @ ''),'',
        ''        ]'',
        ''    }'',
        [],
        ''    // MARK: - Math Module'',
        ''    private static let mathModuleCompletions: [CompletionItem] = ['',
        ''        // Math module constants'',
        ''        .constant(name: '' @ quoted ''math.pi'' @ '', value: '' @ quoted ''3.14''
          @ '', documentation: '' @ quoted ''Pi.'' @ ''),'',
        [],
        ''        // Math module functions'',
        ''        .function(name: '' @ quoted ''math.sqrt'' @ '', parameters: ['' @ quoted ''x''
          @ ''], documentation: '' @ quoted ''Square root.'' @ ''),'',
        ''    ]'',
        []])"
proof -
  have v: "split_ws (python_version ordering_record) \<noteq> []"
    by (simp add: ordering_record_def split_ws.simps isspace_def)
  have b: "\<forall>i\<in>set (builtin_functions ordering_record). has_name_and_doc i"
    by (simp add: ordering_record_def has_name_and_doc_def abs_item_def)
  have t: "\<forall>t\<in>set type_order. \<forall>m. type_methods ordering_record t = Some m \<longrightarrow>
             (\<forall>i\<in>set m. has_name_and_doc i)"
    by (simp add: ordering_record_def type_order_def has_name_and_doc_def upper_item_def
                  append_item_def)
  have m: "\<forall>i\<in>set (math_module ordering_record). kept i \<longrightarrow> has_name_and_doc i"
    by (simp add: ordering_record_def has_name_and_doc_def sqrt_item_def pi_item_def)
  from main_generate_order [OF v b t m, of "''2026''"]
  have "main_generate ''2026'' ordering_record = Inr (emitted_text ''2026'' ordering_record)"
    by simp
  then show ?thesis
    by (simp add: emitted_text_def ordering_record_def type_order_def builtin_block_def
                  type_block_def math_block_def entry_def item_text_def
                  format_swift_array_item_def is_constant_item_def is_function_item_def
                  type_map_def capitalize_samples abs_item_def upper_item_def append_item_def
                  sqrt_item_def pi_item_def quoted_def)
qed

text \<open>
  The adjustment is guarded by a test on the name: an item whose name is not
  \<open>print\<close> gets the plain entry, the one the generating script emits, whatever its
  parameters or documentation hold; for an item named \<open>print\<close> the joined parameter
  text goes through the two substring replacements of \<open>fix_print\<close>.
\<close>

lemma builtin_override_by_name:
  "((\<forall>i\<in>set data. has_name_and_doc i) \<longrightarrow>
      generate_builtin_functions_apply data =
        Inr (join [LF] ([''    private static let builtinFunctions: [CompletionItem] = ['']
                        @ map apply_entry data @ [''    ]''])))
   \<and> (item_name item \<noteq> Some ''print'' \<longrightarrow> apply_entry item = entry ''        '' False item)
   \<and> ((\<forall>i\<in>set data. has_name_and_doc i \<and> item_name i \<noteq> Some ''print'') \<longrightarrow>
        generate_builtin_functions_apply data = generate_builtin_functions data)"
proof -
  have 1: "(\<forall>i\<in>set data. has_name_and_doc i) \<longrightarrow>
      generate_builtin_functions_apply data =
        Inr (join [LF] ([''    private static let builtinFunctions: [CompletionItem] = ['']
                        @ map apply_entry data @ [''    ]'']))"
    by (simp add: generate_builtin_functions_apply_def builtin_lines_apply_named)
  have 2: "item_name item \<noteq> Some ''print'' \<longrightarrow> apply_entry item = entry ''        '' False item"
    by (simp add: apply_entry_def)
  have 3: "(\<forall>i\<in>set data. has_name_and_doc i \<and> item_name i \<noteq> Some ''print'') \<longrightarrow>
        generate_builtin_functions_apply data = generate_builtin_functions data"
  proof
    assume a: "\<forall>i\<in>set data. has_name_and_doc i \<and> item_name i \<noteq> Some ''print''"
    then have e: "map apply_entry data = map (entry ''        '' False) data"
      by (simp add: apply_entry_def)
    from a have n: "\<forall>i\<in>set data. has_name_and_doc i" by blast
    show "generate_builtin_functions_apply data = generate_builtin_functions data"
      by (simp add: generate_builtin_functions_apply_def builtin_lines_apply_named [OF n]
                    generate_builtin_functions_named [OF n] builtin_block_def e)
  qed
  show ?thesis
    by (rule conjI [OF 1 conjI [OF 2 3]])
qed

lemma builtin_override_by_name_sample:
  "generate_builtin_functions_apply [abs_item, print_item] =
     Inr (join [LF]
       [''    private static let builtinFunctions: [CompletionItem] = ['',
        entry ''        '' False abs_item,
        function_line ''        '' ''print'' print_params_emitted ''Prints the values.'' @ '','',
        ''    ]''])
   \<and> generate_builtin_functions_apply [abs_item] = generate_builtin_functions [abs_item]"
proof -
  have n: "\<forall>i\<in>set [abs_item, print_item]. has_name_and_doc i"
    by (simp add: has_name_and_doc_def abs_item_def print_item_def)
  have a: "\<forall>i\<in>set [abs_item]. has_name_and_doc i \<and> item_name i \<noteq> Some ''print''"
    by (simp add: has_name_and_doc_def abs_item_def)
  have e1: "apply_entry abs_item = entry ''        '' False abs_item"
    by (simp add: apply_entry_def abs_item_def)
  have e2: "apply_entry print_item =
              function_line ''        '' ''print'' print_params_emitted ''Prints the values.''
                @ '',''"
    using fix_print_sample by (simp add: apply_entry_def print_item_def)
  from builtin_override_by_name [of "[abs_item, print_item]" abs_item] n
  have "generate_builtin_functions_apply [abs_item, print_item] =
          Inr (join [LF] ([''    private static let builtinFunctions: [CompletionItem] = ['']
                          @ map apply_entry [abs_item, print_item] @ [''    ]'']))"
    by blast
  moreover from builtin_override_by_name [of "[abs_item]" abs_item] a
  have "generate_builtin_functions_apply [abs_item] = generate_builtin_functions [abs_item]"
    by blast
  ultimately show ?thesis
    by (simp add: e1 e2)
qed

text \<open>
  C8. For the item harvested for \<open>print\<close>, whose parameter \<open>end\<close> has a line
  feed as default, the adjustment does not turn the line feed into an escaped token: it
  puts backslash, backslash, n after the opening quote of \<open>end\<close> and leaves the line
  feed in the emitted text. It appends backslash, n to every parameter that ends in a
  single quote, so the parameter \<open>sep\<close>, which holds no line ending, is emitted
  changed.
\<close>

theorem print_override_output:
  "generate_builtin_functions_apply [print_item] =
     Inr (join [LF]
       [''    private static let builtinFunctions: [CompletionItem] = ['',
        function_line ''        '' ''print'' print_params_emitted ''Prints the values.'' @ '','',
        ''    ]''])
   \<and> LF \<in> set print_params_emitted
   \<and> \<not> sublist (quoted (''sep='' @ [squote] @ '' '' @ [squote])) print_params_emitted"
proof -
  have "generate_builtin_functions_apply [print_item] =
     Inr (join [LF]
       [''    private static let builtinFunctions: [CompletionItem] = ['',
        function_line ''        '' ''print'' print_params_emitted ''Prints the values.'' @ '','',
        ''    ]''])"
    using fix_print_sample
    by (simp add: generate_builtin_functions_apply_def params_text_def print_item_def)
  moreover have "LF \<in> set print_params_emitted"
    by (simp add: print_params_emitted_def quoted_def)
  moreover have "\<not> sublist (quoted (''sep='' @ [squote] @ '' '' @ [squote])) print_params_emitted"
    by (simp add: print_params_emitted_def quoted_def sublist_Cons_right)
  ultimately show ?thesis by simp
qed

section \<open>Facts about quoted fields\<close>

lemma split_at_quote:
  "dquote \<notin> set a \<Longrightarrow> dquote \<notin> set b \<Longrightarrow> a @ dquote # r = b @ dquote # r' \<Longrightarrow> a = b \<and> r = r'"
proof (induction a arbitrary: b)
  case Nil
  then show ?case by (cases b) auto
next
  case (Cons c a)
  then show ?case by (cases b) auto
qed

lemma quoted_params_inj:
  "list_all (\<lambda>p. dquote \<notin> set p) ps \<Longrightarrow> list_all (\<lambda>p. dquote \<notin> set p) ps' \<Longrightarrow>
   join '', '' (map quoted ps) @ CHR '']'' # x = join '', '' (map quoted ps') @ CHR '']'' # x'
   \<Longrightarrow> ps = ps' \<and> x = x'"
proof (induction ps arbitrary: ps')
  case Nil
  show ?case
  proof (cases ps')
    case Nil
    with Nil.prems show ?thesis by simp
  next
    case (Cons p' r')
    with Nil.prems(3) show ?thesis by (simp add: join_Cons quoted_def)
  qed
next
  case (Cons p r)
  define tail where
    "tail r x = (if r = [] then [] else '', '' @ join '', '' (map quoted r)) @ CHR '']'' # x"
    for r :: "string list" and x :: string
  have unfold: "join '', '' (map quoted (q # r)) @ CHR '']'' # x = dquote # (q @ dquote # tail r x)"
    for q r x
    by (simp add: join_Cons quoted_def tail_def)
  show ?case
  proof (cases ps')
    case Nil
    from Cons.prems(3) have "dquote # (p @ dquote # tail r x) = CHR '']'' # x'"
      unfolding Nil unfold by simp
    then show ?thesis by simp
  next
    case ps': (Cons p' r')
    from Cons.prems ps' have q: "dquote \<notin> set p" "dquote \<notin> set p'" by auto
    from Cons.prems(3) have "p @ dquote # tail r x = p' @ dquote # tail r' x'"
      unfolding ps' unfold by simp
    from split_at_quote [OF q this] have pp: "p = p'" and t: "tail r x = tail r' x'" by auto
    have "r = r' \<and> x = x'"
    proof (cases "r = []")
      case True
      with t show ?thesis by (cases "r' = []") (auto simp: tail_def)
    next
      case False
      with t have r': "r' \<noteq> []" by (cases "r' = []") (auto simp: tail_def)
      with t False have "join '', '' (map quoted r) @ CHR '']'' # x
                         = join '', '' (map quoted r') @ CHR '']'' # x'"
        by (simp add: tail_def)
      moreover from Cons.prems ps' have "list_all (\<lambda>p. dquote \<notin> set p) r"
        "list_all (\<lambda>p. dquote \<notin> set p) r'" by auto
      ultimately show ?thesis using Cons.IH by blast
    qed
    with pp ps' show ?thesis by simp
  qed
qed

lemma format_fields_inj:
  assumes "quote_free a" "quote_free b"
    and "format_swift_array_item a ca = Inr t" "format_swift_array_item b cb = Inr t"
  shows "fields a ca = fields b cb"
proof -
  from assms(3) obtain na da where a: "item_name a = Some na" "item_doc a = Some da"
    by (cases "item_name a"; cases "item_doc a"; cases ca)
       (simp_all add: format_swift_array_item_def)
  from assms(4) obtain nb db where b: "item_name b = Some nb" "item_doc b = Some db"
    by (cases "item_name b"; cases "item_doc b"; cases cb)
       (simp_all add: format_swift_array_item_def)
  define pa where "pa = (case item_params a of None \<Rightarrow> [] | Some ps \<Rightarrow> ps)"
  define pb where "pb = (case item_params b of None \<Rightarrow> [] | Some ps \<Rightarrow> ps)"
  define va where "va = (case item_value a of None \<Rightarrow> [] | Some v \<Rightarrow> v)"
  define vb where "vb = (case item_value b of None \<Rightarrow> [] | Some v \<Rightarrow> v)"
  define C where
    "C n v d = ''.constant(name: '' @ dquote # n @ dquote # ('', value: '' @ dquote # v
                 @ dquote # ('', documentation: '' @ dquote # d @ dquote # '')''))"
    for n v d :: string
  define F where
    "F n ps d = ''.function(name: '' @ dquote # n @ dquote # ('', parameters: [''
                  @ join '', '' (map quoted ps) @ CHR '']''
                  # ('', documentation: '' @ dquote # d @ dquote # '')''))"
    for n d :: string and ps :: "string list"
  have fa: "format_swift_array_item a ca = Inr (if ca then C na va da else F na pa da)"
    by (simp add: format_swift_array_item_def a quoted_def C_def F_def pa_def va_def)
  have fb: "format_swift_array_item b cb = Inr (if cb then C nb vb db else F nb pb db)"
    by (simp add: format_swift_array_item_def b quoted_def C_def F_def pb_def vb_def)
  have ne: "C n v d \<noteq> F n' ps d'" for n v d n' ps d'
    by (simp add: C_def F_def)
  from assms(3,4) fa fb
  have eq: "(if ca then C na va da else F na pa da) = (if cb then C nb vb db else F nb pb db)"
    by simp
  have kind: "ca = cb"
    using eq ne ne [symmetric] by (cases ca; cases cb) simp_all
  from assms(1) a have qa: "dquote \<notin> set na" "list_all (\<lambda>p. dquote \<notin> set p) pa" "dquote \<notin> set va"
    by (simp_all add: quote_free_def pa_def va_def)
  from assms(2) b have qb: "dquote \<notin> set nb" "list_all (\<lambda>p. dquote \<notin> set p) pb" "dquote \<notin> set vb"
    by (simp_all add: quote_free_def pb_def vb_def)
  show ?thesis
  proof (cases ca)
    case True
    with eq kind have "C na va da = C nb vb db" by simp
    then have "na @ dquote # ('', value: '' @ dquote # va
                 @ dquote # ('', documentation: '' @ dquote # da @ dquote # '')''))
             = nb @ dquote # ('', value: '' @ dquote # vb
                 @ dquote # ('', documentation: '' @ dquote # db @ dquote # '')''))"
      by (simp add: C_def)
    from split_at_quote [OF qa(1) qb(1) this]
    have n: "na = nb"
      and "va @ dquote # ('', documentation: '' @ dquote # da @ dquote # '')'')
         = vb @ dquote # ('', documentation: '' @ dquote # db @ dquote # '')'')"
      by simp_all
    from split_at_quote [OF qa(3) qb(3) this(2)] have "da = db" by simp
    with n True kind a b show ?thesis by (simp add: fields_def)
  next
    case False
    with eq kind have "F na pa da = F nb pb db" by simp
    then have "na @ dquote # ('', parameters: ['' @ join '', '' (map quoted pa) @ CHR '']''
                  # ('', documentation: '' @ dquote # da @ dquote # '')''))
             = nb @ dquote # ('', parameters: ['' @ join '', '' (map quoted pb) @ CHR '']''
                  # ('', documentation: '' @ dquote # db @ dquote # '')''))"
      by (simp add: F_def)
    from split_at_quote [OF qa(1) qb(1) this]
    have n: "na = nb"
      and "join '', '' (map quoted pa) @ CHR '']'' # ('', documentation: '' @ dquote # da @ dquote # '')'')
         = join '', '' (map quoted pb) @ CHR '']'' # ('', documentation: '' @ dquote # db @ dquote # '')'')"
      by simp_all
    from quoted_params_inj [OF qa(2) qb(2) this(2)] have "pa = pb" "da = db" by simp_all
    with n False kind a b show ?thesis by (simp add: fields_def pa_def pb_def)
  qed
qed

lemma same_entry:
  "format_swift_array_item one_param_item False = format_swift_array_item two_param_item False"
  by (simp add: format_swift_array_item_def one_param_item_def two_param_item_def quoted_def)

section \<open>Claims about reading an entry back\<close>

text \<open>
  C9, as the code has it. The generators put name, parameters and value between double
  quotes as they are. For the items whose name, parameters and value hold no double
  quote there is a function from the emitted expression back to the name, the kind, the
  number of parameters and the documentation, the same for all those items and both
  kinds.
\<close>

theorem emitted_fields_recoverable:
  "\<exists>parse. \<forall>item is_constant text.
     quote_free item \<longrightarrow> format_swift_array_item item is_constant = Inr text \<longrightarrow>
     parse text = fields item is_constant"
proof -
  define parse where
    "parse t = (THE f. \<exists>item c. quote_free item \<and> format_swift_array_item item c = Inr t
                                \<and> f = fields item c)" for t
  have "parse t = fields item c"
    if "quote_free item" "format_swift_array_item item c = Inr t" for item c t
    unfolding parse_def
  proof (rule the_equality)
    show "\<exists>item' c'. quote_free item' \<and> format_swift_array_item item' c' = Inr t
                      \<and> fields item c = fields item' c'"
      using that by blast
  next
    fix f
    assume "\<exists>item' c'. quote_free item' \<and> format_swift_array_item item' c' = Inr t
                        \<and> f = fields item' c'"
    then show "f = fields item c"
      using that format_fields_inj by blast
  qed
  then show ?thesis by blast
qed

theorem emitted_fields_recoverable_witness:
  "quote_free abs_item \<and> quote_free pi_item
   \<and> (\<exists>parse. parse (item_text abs_item False) = (Some ''abs'', False, 1::nat, Some ''Absolute value.'')
              \<and> parse (item_text pi_item True) = (Some ''math.pi'', True, 0::nat, Some ''Pi.''))"
proof -
  have q: "quote_free abs_item" "quote_free pi_item"
    by (simp_all add: quote_free_def abs_item_def pi_item_def)
  have f: "format_swift_array_item abs_item False = Inr (item_text abs_item False)"
    "format_swift_array_item pi_item True = Inr (item_text pi_item True)"
    by (simp_all add: format_named has_name_and_doc_def abs_item_def pi_item_def)
  from emitted_fields_recoverable obtain parse where
    p: "\<forall>item is_constant text. quote_free item \<longrightarrow>
          format_swift_array_item item is_constant = Inr text \<longrightarrow>
          parse text = fields item is_constant"
    ..
  have a: "parse (item_text abs_item False) = fields abs_item False"
    by (rule p [rule_format, OF q(1) f(1)])
  have b: "parse (item_text pi_item True) = fields pi_item True"
    by (rule p [rule_format, OF q(2) f(2)])
  have fa: "fields abs_item False = (Some ''abs'', False, 1::nat, Some ''Absolute value.'')"
    by (simp add: fields_def abs_item_def)
  have fb: "fields pi_item True = (Some ''math.pi'', True, 0::nat, Some ''Pi.'')"
    by (simp add: fields_def pi_item_def)
  have "parse (item_text abs_item False) = (Some ''abs'', False, 1::nat, Some ''Absolute value.'')
        \<and> parse (item_text pi_item True) = (Some ''math.pi'', True, 0::nat, Some ''Pi.'')"
    using a b fa fb by (simp only: simp_thms)
  then have e: "\<exists>parse. parse (item_text abs_item False)
                      = (Some ''abs'', False, 1::nat, Some ''Absolute value.'')
                   \<and> parse (item_text pi_item True) = (Some ''math.pi'', True, 0::nat, Some ''Pi.'')"
    by - (rule exI [of _ parse])
  show ?thesis
    by (rule conjI [OF q(1) conjI [OF q(2) e]])
qed

text \<open>
  Without that restriction there is none: an item with one parameter and an item with
  two, neither named \<open>print\<close>, have the same emitted expression.
\<close>

theorem round_trip_counterexample:
  "\<not> (\<exists>parse. \<forall>item text.
         item_name item \<noteq> Some ''print'' \<longrightarrow> format_swift_array_item item False = Inr text \<longrightarrow>
         parse text = fields item False)"
proof
  assume "\<exists>parse. \<forall>item text.
         item_name item \<noteq> Some ''print'' \<longrightarrow> format_swift_array_item item False = Inr text \<longrightarrow>
         parse text = fields item False"
  then obtain parse where p: "\<forall>item text.
         item_name item \<noteq> Some ''print'' \<longrightarrow> format_swift_array_item item False = Inr text \<longrightarrow>
         parse text = fields item False"
    ..
  have n: "item_name one_param_item \<noteq> Some ''print''" "item_name two_param_item \<noteq> Some ''print''"
    by (simp_all add: one_param_item_def two_param_item_def)
  have 1: "format_swift_array_item one_param_item False = Inr (item_text one_param_item False)"
    by (simp add: format_named has_name_and_doc_def one_param_item_def)
  have 2: "format_swift_array_item two_param_item False = Inr (item_text one_param_item False)"
    using 1 same_entry by simp
  have "parse (item_text one_param_item False) = fields one_param_item False"
    by (rule p [rule_format, OF n(1) 1])
  moreover have "parse (item_text one_param_item False) = fields two_param_item False"
    by (rule p [rule_format, OF n(2) 2])
  ultimately have "fields one_param_item False = fields two_param_item False" by simp
  then show False
    by (simp add: fields_def one_param_item_def two_param_item_def)
qed

end
